theory Spec2Isabelle
  imports Complex_Main
begin

section \<open>Values read from a session file\<close>

text \<open>
  \<^verbatim>\<open>read_session.py\<close> works on the Python values that \<^verbatim>\<open>json.loads\<close> returns: \<^verbatim>\<open>None\<close>,
  booleans, numbers, strings, lists and dicts. A dict is the list of its items (keys
  distinct, as in a Python dict). Numbers are exact rationals: the arithmetic of the
  script is addition of costs and token counts, and the rounding of Python's floats is
  not part of the model. A character of a \<^typ>\<open>string\<close> stands for one code point of a
  Python \<^verbatim>\<open>str\<close>, so \<^const>\<open>length\<close> is Python's \<^verbatim>\<open>len\<close>.
\<close>

datatype json =
    JNull
  | JBool bool
  | JNum rat
  | JStr string
  | JArr "json list"
  | JObj "(string \<times> json) list"

text \<open>The exceptions the script can raise; none of them is caught.\<close>

datatype error = JSONDecodeError | AttributeError | TypeError | KeyError | ValueError

text \<open>Python's truth value of a parsed value (\<^verbatim>\<open>if x:\<close>, \<^verbatim>\<open>if not x:\<close>).\<close>

fun truthy :: "json \<Rightarrow> bool" where
  "truthy JNull = False"
| "truthy (JBool b) = b"
| "truthy (JNum q) = (q \<noteq> 0)"
| "truthy (JStr s) = (s \<noteq> [])"
| "truthy (JArr xs) = (xs \<noteq> [])"
| "truthy (JObj kvs) = (kvs \<noteq> [])"

text \<open>
  \<^verbatim>\<open>x.get(key, default)\<close>: only a dict has the method; on any other value the call raises
  \<^verbatim>\<open>AttributeError\<close>. \<^verbatim>\<open>x.get(key)\<close> is \<open>py_get x key JNull\<close>.
\<close>

fun py_get :: "json \<Rightarrow> string \<Rightarrow> json \<Rightarrow> error + json" where
  "py_get (JObj kvs) k d = Inr (case map_of kvs k of Some v \<Rightarrow> v | None \<Rightarrow> d)"
| "py_get _ k d = Inl AttributeError"

text \<open>\<^verbatim>\<open>for x in v\<close>: a list gives its elements, a string its characters, a dict its keys.\<close>

fun py_iter :: "json \<Rightarrow> error + json list" where
  "py_iter (JArr xs) = Inr xs"
| "py_iter (JStr s) = Inr (map (\<lambda>c. JStr [c]) s)"
| "py_iter (JObj kvs) = Inr (map (\<lambda>kv. JStr (fst kv)) kvs)"
| "py_iter _ = Inl TypeError"

text \<open>\<^verbatim>\<open>total += v\<close> on a numeric total: a boolean counts as 0 or 1.\<close>

fun py_add :: "rat \<Rightarrow> json \<Rightarrow> error + rat" where
  "py_add t (JNum q) = Inr (t + q)"
| "py_add t (JBool b) = Inr (t + of_bool b)"
| "py_add t _ = Inl TypeError"

text \<open>A value under a numeric format (\<^verbatim>\<open>:.4f\<close>, \<^verbatim>\<open>:,\<close>): the number that is formatted.\<close>

fun py_format_num :: "json \<Rightarrow> error + rat" where
  "py_format_num (JNum q) = Inr q"
| "py_format_num (JBool b) = Inr (of_bool b)"
| "py_format_num (JStr s) = Inl ValueError"
| "py_format_num _ = Inl TypeError"

text \<open>
  Sequencing: the first exception ends the computation. \<open>for_each f xs s\<close> is a loop
  \<^verbatim>\<open>for x in xs\<close> whose body \<open>f\<close> updates the variables \<open>s\<close> and neither breaks nor returns.
\<close>

definition bnd :: "error + 'a \<Rightarrow> ('a \<Rightarrow> error + 'b) \<Rightarrow> error + 'b" where
  "bnd m f = (case m of Inl e \<Rightarrow> Inl e | Inr x \<Rightarrow> f x)"

fun for_each :: "('s \<Rightarrow> 'a \<Rightarrow> error + 's) \<Rightarrow> 'a list \<Rightarrow> 's \<Rightarrow> error + 's" where
  "for_each f [] s = Inr s"
| "for_each f (x # xs) s = bnd (f s x) (for_each f xs)"

subsection \<open>Strings\<close>

text \<open>\<^verbatim>\<open>str.isspace\<close> on the code points below 256, and \<^verbatim>\<open>str.strip()\<close>.\<close>

definition isspace :: "char \<Rightarrow> bool" where
  "isspace c = (let n = (of_char c :: nat) in
     (9 \<le> n \<and> n \<le> 13) \<or> (28 \<le> n \<and> n \<le> 32) \<or> n = 133 \<or> n = 160)"

definition strip :: "string \<Rightarrow> string" where
  "strip s = rev (dropWhile isspace (rev (dropWhile isspace s)))"

text \<open>\<^verbatim>\<open>sep.join(xs)\<close> on strings.\<close>

fun join :: "string \<Rightarrow> string list \<Rightarrow> string" where
  "join sep [] = []"
| "join sep [x] = x"
| "join sep (x # y # ys) = x @ sep @ join sep (y # ys)"

text \<open>\<^verbatim>\<open>s.replace("\n", " ")\<close>.\<close>

definition newlines_to_spaces :: "string \<Rightarrow> string" where
  "newlines_to_spaces s = map (\<lambda>c. if c = CHR 0x0A then CHR '' '' else c) s"

text \<open>\<^verbatim>\<open>str(n)\<close> of a natural number, in decimal.\<close>

fun str_nat :: "nat \<Rightarrow> string" where
  "str_nat n =
     (if n < 10 then [char_of (48 + n)]
      else str_nat (n div 10) @ [char_of (48 + n mod 10)])"

declare str_nat.simps [simp del]

section \<open>The data of the script\<close>

text \<open>
  The library functions the script calls are parameters of the model: \<^verbatim>\<open>json.loads\<close>
  (\<open>None\<close> where it raises \<^verbatim>\<open>JSONDecodeError\<close>), \<^verbatim>\<open>json.dumps\<close>, \<^verbatim>\<open>str\<close> on a parsed value
  and \<^verbatim>\<open>Path(p).exists()\<close>.
\<close>

record lib =
  loads :: "string \<Rightarrow> json option"
  dumps :: "json \<Rightarrow> string"
  py_str :: "json \<Rightarrow> string"
  path_exists :: "string \<Rightarrow> bool"

text \<open>The command line: \<^verbatim>\<open>--mode\<close>, \<^verbatim>\<open>--offset\<close>, \<^verbatim>\<open>--limit\<close>, \<^verbatim>\<open>--max-content\<close>.\<close>

datatype mode = Overview | Conversation | Full | Tools | Costs | Subagents

record args =
  mode :: mode
  offset :: int
  limit :: int
  max_content :: int

text \<open>An entry of \<^verbatim>\<open>turn["tool_calls"]\<close>.\<close>

record tool_call =
  tc_id :: json
  tc_name :: json
  tc_arguments :: json

text \<open>
  A turn, the dict \<^verbatim>\<open>extract_turns\<close> builds. The keys that are set only for some roles
  are optional fields: \<open>None\<close> is the absent key.
\<close>

record turn =
  role :: json
  timestamp :: json
  texts :: "string list"
  tool_calls :: "tool_call list"
  thinking :: "json list"
  is_error :: json
  model :: "json option"
  provider :: "json option"
  usage :: "json option"
  stop_reason :: "json option"
  tool_call_id :: "json option"
  tool_name :: "json option"
  subagent_details :: "json option"

subsection \<open>Report output\<close>

text \<open>
  One \<open>Line\<close> is one call of \<^verbatim>\<open>print\<close>: the label names the format string and the list
  holds the values the format interpolates, in order. Turning a value into text
  (\<^verbatim>\<open>format_timestamp\<close>, the numeric format specifications, the status glyphs) is
  presentation and is not modelled: a line carries the value itself. A numeric format
  applied to a value that is not a number raises, and that is modelled.
\<close>

datatype line = Line string "json list"

text \<open>What one iteration of a loop does: fall through or \<^verbatim>\<open>continue\<close>, \<^verbatim>\<open>break\<close>, or raise.\<close>

datatype flow = Next | Break | Raise error

text \<open>The local variables of the renderers, and what has been printed so far.\<close>

record rstate =
  turn_num :: int
  tool_num :: int
  assistant_num :: int
  sub_num :: int
  total_cost :: rat
  total_duration :: rat
  subagent_cost :: rat
  found_any :: bool
  out :: "line list"

section \<open>truncate\<close>

text \<open>
  The suffix: a newline and \<^verbatim>\<open>... [truncated, {len(text)} chars total]\<close>, for a text of
  \<open>n\<close> characters.
\<close>

definition truncation_marker :: "nat \<Rightarrow> string" where
  "truncation_marker n = CHR 0x0A # ''... [truncated, '' @ str_nat n @ '' chars total]''"

definition truncate :: "string \<Rightarrow> int \<Rightarrow> string" where
  "truncate text max_len =
     (if max_len \<le> 0 \<or> int (length text) \<le> max_len then text
      else take (nat max_len) text @ truncation_marker (length text))"

section \<open>parse_session\<close>

text \<open>
  The loop over the lines of the file, on the triple \<^verbatim>\<open>(metadata, events, messages)\<close>.
  A blank line is skipped; \<^verbatim>\<open>json.loads\<close> and \<^verbatim>\<open>obj.get\<close> may raise, which ends the parse.
\<close>

fun parse_lines ::
  "lib \<Rightarrow> string list \<Rightarrow> json \<times> json list \<times> json list \<Rightarrow> error + json \<times> json list \<times> json list"
where
  "parse_lines L [] acc = Inr acc"
| "parse_lines L (line # rest) (metadata, events, messages) =
     (let line = strip line in
      if line = [] then parse_lines L rest (metadata, events, messages)
      else
        case loads L line of
          None \<Rightarrow> Inl JSONDecodeError
        | Some obj \<Rightarrow>
            (case py_get obj ''type'' JNull of
               Inl e \<Rightarrow> Inl e
             | Inr t \<Rightarrow>
                 if t = JStr ''session'' then parse_lines L rest (obj, events, messages)
                 else if t = JStr ''model_change'' \<or> t = JStr ''thinking_level_change''
                 then parse_lines L rest (metadata, events @ [obj], messages)
                 else if t = JStr ''message''
                 then parse_lines L rest (metadata, events, messages @ [obj])
                 else parse_lines L rest (metadata, events, messages)))"

definition parse_session :: "lib \<Rightarrow> string list \<Rightarrow> error + json \<times> json list \<times> json list" where
  "parse_session L lines = parse_lines L lines (JObj [], [], [])"

section \<open>extract_turns\<close>

text \<open>\<^verbatim>\<open>x.strip()\<close> on a parsed value: only a string has the method.\<close>

fun py_strip :: "json \<Rightarrow> error + string" where
  "py_strip (JStr s) = Inr (strip s)"
| "py_strip _ = Inl AttributeError"

fun is_dict :: "json \<Rightarrow> bool" where
  "is_dict (JObj kvs) = True"
| "is_dict _ = False"

definition extract_subagent_details :: "json \<Rightarrow> error + json option" where
  "extract_subagent_details msg =
     bnd (py_get msg ''role'' JNull) (\<lambda>r.
       if r \<noteq> JStr ''toolResult'' then Inr None
       else bnd (py_get msg ''toolName'' JNull) (\<lambda>n.
         if n \<noteq> JStr ''subagent'' then Inr None
         else bnd (py_get msg ''details'' JNull) (\<lambda>details.
           if \<not> truthy details then Inr None else Inr (Some details))))"

text \<open>The turn as first built, before the role-specific keys are set.\<close>

definition new_turn :: "json \<Rightarrow> json \<Rightarrow> json \<Rightarrow> turn" where
  "new_turn r ts err =
     \<lparr>role = r, timestamp = ts, texts = [], tool_calls = [], thinking = [], is_error = err,
      model = None, provider = None, usage = None, stop_reason = None,
      tool_call_id = None, tool_name = None, subagent_details = None\<rparr>"

text \<open>\<^verbatim>\<open>if role == "assistant":\<close> the cost keys, set only when \<^verbatim>\<open>usage\<close> is truthy.\<close>

definition usage_fields :: "json \<Rightarrow> turn \<Rightarrow> error + turn" where
  "usage_fields msg t =
     (if role t = JStr ''assistant'' then
        bnd (py_get msg ''usage'' (JObj [])) (\<lambda>u.
          if truthy u then
            bnd (py_get msg ''model'' (JStr [])) (\<lambda>m.
            bnd (py_get msg ''provider'' (JStr [])) (\<lambda>p.
            bnd (py_get msg ''stopReason'' (JStr [])) (\<lambda>sr.
              Inr (t\<lparr>model := Some m, provider := Some p, usage := Some u,
                        stop_reason := Some sr\<rparr>))))
          else Inr t)
      else Inr t)"

text \<open>
  The body of \<^verbatim>\<open>for item in content\<close>. An item of type \<^verbatim>\<open>text\<close> whose text is blank fails
  the first test and matches neither \<^verbatim>\<open>elif\<close>, so the chain is a case distinction on the
  type. \<^verbatim>\<open>item.get("text", "").strip()\<close> raises on a text that is not a string.
\<close>

definition content_item :: "turn \<Rightarrow> json \<Rightarrow> error + turn" where
  "content_item t item =
     (if \<not> is_dict item then Inr t
      else bnd (py_get item ''type'' (JStr [])) (\<lambda>item_type.
        if item_type = JStr ''text'' then
          bnd (py_get item ''text'' (JStr [])) (\<lambda>txt.
          bnd (py_strip txt) (\<lambda>stripped.
            case txt of
              JStr s \<Rightarrow> Inr (if stripped \<noteq> [] then t\<lparr>texts := texts t @ [s]\<rparr> else t)
            | _ \<Rightarrow> Inl AttributeError))
        else if item_type = JStr ''toolCall'' then
          bnd (py_get item ''id'' (JStr [])) (\<lambda>i.
          bnd (py_get item ''name'' (JStr [])) (\<lambda>n.
          bnd (py_get item ''arguments'' (JObj [])) (\<lambda>a.
            Inr (t\<lparr>tool_calls := tool_calls t
                       @ [\<lparr>tc_id = i, tc_name = n, tc_arguments = a\<rparr>]\<rparr>))))
        else if item_type = JStr ''thinking'' then
          bnd (py_get item ''thinking'' (JStr [])) (\<lambda>thinking_text.
            Inr (if truthy thinking_text
                 then t\<lparr>thinking := thinking t @ [thinking_text]\<rparr> else t))
        else Inr t))"

text \<open>The generic content rule: a string, a list, or anything else (which adds nothing).\<close>

definition content_fields :: "json \<Rightarrow> turn \<Rightarrow> error + turn" where
  "content_fields content t =
     (case content of
        JStr s \<Rightarrow> Inr (if strip s \<noteq> [] then t\<lparr>texts := texts t @ [s]\<rparr> else t)
      | JArr items \<Rightarrow> for_each content_item items t
      | _ \<Rightarrow> Inr t)"

text \<open>
  The body of \<^verbatim>\<open>for item in result_content\<close>. The text appended is a string: the
  generic rule has run over the same content before and raised on any \<^verbatim>\<open>text\<close> item whose
  text is not one, so the last case is never reached from \<open>extract_turn\<close>.
\<close>

definition result_item :: "turn \<Rightarrow> json \<Rightarrow> error + turn" where
  "result_item t item =
     (if \<not> is_dict item then Inr t
      else bnd (py_get item ''type'' JNull) (\<lambda>item_type.
        if item_type = JStr ''text'' then
          bnd (py_get item ''text'' (JStr [])) (\<lambda>txt.
            case txt of
              JStr s \<Rightarrow> Inr (t\<lparr>texts := texts t @ [s]\<rparr>)
            | _ \<Rightarrow> Inl AttributeError)
        else Inr t))"

text \<open>\<^verbatim>\<open>if role == "toolResult":\<close> the texts start again from the empty list.\<close>

definition tool_result_fields :: "json \<Rightarrow> turn \<Rightarrow> error + turn" where
  "tool_result_fields msg t =
     (if role t = JStr ''toolResult'' then
        bnd (py_get msg ''toolCallId'' (JStr [])) (\<lambda>i.
        bnd (py_get msg ''toolName'' (JStr [])) (\<lambda>n.
        bnd (py_get msg ''content'' (JStr [])) (\<lambda>result_content.
        bnd (let t1 = t\<lparr>tool_call_id := Some i, tool_name := Some n, texts := []\<rparr> in
             case result_content of
               JArr items \<Rightarrow> for_each result_item items t1
             | JStr s \<Rightarrow> Inr (if strip s \<noteq> [] then t1\<lparr>texts := texts t1 @ [s]\<rparr> else t1)
             | _ \<Rightarrow> Inr t1) (\<lambda>t2.
        bnd (extract_subagent_details msg) (\<lambda>sd.
          Inr (case sd of
                 Some details \<Rightarrow> t2\<lparr>subagent_details := Some details\<rparr>
               | None \<Rightarrow> t2))))))
      else Inr t)"

text \<open>The body of \<^verbatim>\<open>for entry in messages\<close>: the turn of one message record.\<close>

definition extract_turn :: "json \<Rightarrow> error + turn" where
  "extract_turn entry =
     bnd (py_get entry ''message'' (JObj [])) (\<lambda>msg.
     bnd (py_get msg ''role'' (JStr [])) (\<lambda>r.
     bnd (py_get msg ''content'' (JStr [])) (\<lambda>content.
     bnd (py_get msg ''timestamp'' (JStr [])) (\<lambda>inner_ts.
     bnd (py_get entry ''timestamp'' inner_ts) (\<lambda>ts.
     bnd (py_get msg ''isError'' (JBool False)) (\<lambda>err.
     bnd (usage_fields msg (new_turn r ts err)) (\<lambda>t1.
     bnd (content_fields content t1) (\<lambda>t2.
       tool_result_fields msg t2))))))))"

definition extract_turns :: "json list \<Rightarrow> error + turn list" where
  "extract_turns messages =
     for_each (\<lambda>turns entry. bnd (extract_turn entry) (\<lambda>t. Inr (turns @ [t]))) messages []"

section \<open>The renderers' loops\<close>

definition start :: "line list \<Rightarrow> rstate" where
  "start header =
     \<lparr>turn_num = 0, tool_num = 0, assistant_num = 0, sub_num = 0, total_cost = 0,
      total_duration = 0, subagent_cost = 0, found_any = False, out = header\<rparr>"

text \<open>
  A loop whose body may \<^verbatim>\<open>break\<close> or raise: \<open>Break\<close> and \<open>Raise\<close> end it with the variables
  as they are.
\<close>

fun loop :: "(rstate \<Rightarrow> 'a \<Rightarrow> flow \<times> rstate) \<Rightarrow> 'a list \<Rightarrow> rstate \<Rightarrow> flow \<times> rstate" where
  "loop body [] s = (Next, s)"
| "loop body (x # xs) s =
     (case body s x of
        (Next, s') \<Rightarrow> loop body xs s'
      | (Break, s') \<Rightarrow> (Break, s')
      | (Raise e, s') \<Rightarrow> (Raise e, s'))"

text \<open>
  A run of \<^verbatim>\<open>print\<close> statements: each step either raises while its arguments are
  evaluated, before anything of it is printed, or prints its lines.
\<close>

fun emit_all :: "(error + line list) list \<Rightarrow> rstate \<Rightarrow> flow \<times> rstate" where
  "emit_all [] s = (Next, s)"
| "emit_all (Inl e # steps) s = (Raise e, s)"
| "emit_all (Inr ls # steps) s = emit_all steps (s\<lparr>out := out s @ ls\<rparr>)"

text \<open>
  The two tests every windowed branch makes, in this order:
  \<^verbatim>\<open>if args.offset and turn_num <= args.offset: continue\<close> and
  \<^verbatim>\<open>if args.limit and turn_num > args.offset + args.limit: break\<close>.
\<close>

datatype window = Skip | Stop | Show

definition window :: "args \<Rightarrow> int \<Rightarrow> window" where
  "window a n =
     (if offset a \<noteq> 0 \<and> n \<le> offset a then Skip
      else if limit a \<noteq> 0 \<and> n > offset a + limit a then Stop
      else Show)"

definition windowed :: "args \<Rightarrow> rstate \<Rightarrow> flow \<times> rstate \<Rightarrow> flow \<times> rstate" where
  "windowed a s shown =
     (case window a (turn_num s) of
        Skip \<Rightarrow> (Next, s)
      | Stop \<Rightarrow> (Break, s)
      | Show \<Rightarrow> shown)"

text \<open>\<^verbatim>\<open>turn.get(key, default)\<close> on a key of the turn that may be absent.\<close>

definition get_or :: "'a option \<Rightarrow> 'a \<Rightarrow> 'a" where
  "get_or v d = (case v of Some x \<Rightarrow> x | None \<Rightarrow> d)"

text \<open>\<^verbatim>\<open>turn.get("subagent_details")\<close> when it is truthy.\<close>

definition details_of :: "turn \<Rightarrow> json option" where
  "details_of t =
     (case subagent_details t of
        Some d \<Rightarrow> if truthy d then Some d else None
      | None \<Rightarrow> None)"

subsection \<open>Dynamic typing\<close>

text \<open>\<^verbatim>\<open>sep.join(xs)\<close>: every element must be a string.\<close>

fun the_str :: "json \<Rightarrow> string option" where
  "the_str (JStr s) = Some s"
| "the_str _ = None"

definition py_join :: "string \<Rightarrow> json list \<Rightarrow> error + string" where
  "py_join sep xs =
     (case those (map the_str xs) of
        Some ss \<Rightarrow> Inr (join sep ss)
      | None \<Rightarrow> Inl TypeError)"

text \<open>
  \<^verbatim>\<open>x[:n].replace("\n", " ")\<close>: a list can be sliced but has no \<^verbatim>\<open>replace\<close>; slicing a dict
  looks the slice up as a key; the other values cannot be subscripted.
\<close>

fun py_preview :: "nat \<Rightarrow> json \<Rightarrow> error + string" where
  "py_preview n (JStr s) = Inr (newlines_to_spaces (take n s))"
| "py_preview n (JArr xs) = Inl AttributeError"
| "py_preview n (JObj kvs) = Inl KeyError"
| "py_preview n _ = Inl TypeError"

text \<open>\<^verbatim>\<open>x.replace(chr(10), ' ')\<close>: only a string has the method.\<close>

fun py_replace_newlines :: "json \<Rightarrow> error + string" where
  "py_replace_newlines (JStr s) = Inr (newlines_to_spaces s)"
| "py_replace_newlines _ = Inl AttributeError"

text \<open>\<^verbatim>\<open>len(x)\<close>.\<close>

fun py_len :: "json \<Rightarrow> error + nat" where
  "py_len (JArr xs) = Inr (length xs)"
| "py_len (JStr s) = Inr (length s)"
| "py_len (JObj kvs) = Inr (length kvs)"
| "py_len _ = Inl TypeError"

text \<open>A value under a string format (\<^verbatim>\<open>:<30\<close>): \<^verbatim>\<open>None\<close>, lists and dicts do not take one.\<close>

fun py_format_str :: "json \<Rightarrow> error + json" where
  "py_format_str (JStr s) = Inr (JStr s)"
| "py_format_str (JNum q) = Inr (JNum q)"
| "py_format_str (JBool b) = Inr (JBool b)"
| "py_format_str _ = Inl TypeError"

text \<open>\<^verbatim>\<open>a + '/' + b\<close>: both must be strings.\<close>

fun py_concat_slash :: "json \<Rightarrow> json \<Rightarrow> error + string" where
  "py_concat_slash (JStr a) (JStr b) = Inr (a @ ''/'' @ b)"
| "py_concat_slash _ _ = Inl TypeError"

text \<open>\<^verbatim>\<open>Path(p).exists()\<close>: the path must be a string.\<close>

fun py_exists :: "lib \<Rightarrow> json \<Rightarrow> error + bool" where
  "py_exists L (JStr p) = Inr (path_exists L p)"
| "py_exists L _ = Inl TypeError"

text \<open>\<^verbatim>\<open>x == 0\<close>.\<close>

definition py_is_zero :: "json \<Rightarrow> bool" where
  "py_is_zero v = (v = JNum 0 \<or> v = JBool False)"

text \<open>
  \<^verbatim>\<open>truncate\<close> on a value that need not be a string (a thinking segment is any truthy
  value): with a limit of zero or less the value is returned before its length is asked
  for; a list or dict at or under the limit is returned as it is, and a longer one fails
  in the slice or the concatenation.
\<close>

fun py_truncate :: "json \<Rightarrow> int \<Rightarrow> error + json" where
  "py_truncate (JStr s) n = Inr (JStr (truncate s n))"
| "py_truncate (JArr xs) n =
     (if n \<le> 0 \<or> int (length xs) \<le> n then Inr (JArr xs) else Inl TypeError)"
| "py_truncate (JObj kvs) n =
     (if n \<le> 0 \<or> int (length kvs) \<le> n then Inr (JObj kvs) else Inl KeyError)"
| "py_truncate v n = (if n \<le> 0 then Inr v else Inl TypeError)"

subsection \<open>format_duration and format_subagent_summary\<close>

definition str_int :: "int \<Rightarrow> string" where
  "str_int i = (if i < 0 then CHR ''-'' # str_nat (nat (- i)) else str_nat (nat i))"

text \<open>\<^verbatim>\<open>int(x)\<close> rounds towards zero.\<close>

definition py_int :: "rat \<Rightarrow> int" where
  "py_int q = (if q < 0 then \<lceil>q\<rceil> else \<lfloor>q\<rfloor>)"

definition format_duration :: "rat \<Rightarrow> string" where
  "format_duration ms =
     (let secs = py_int (ms / 1000) in
      if secs < 60 then str_int secs @ ''s''
      else str_int (secs div 60) @ ''m'' @ str_int (secs mod 60) @ ''s'')"

fun py_format_duration :: "json \<Rightarrow> error + string" where
  "py_format_duration (JNum q) = Inr (format_duration q)"
| "py_format_duration (JBool b) = Inr (format_duration (of_bool b))"
| "py_format_duration _ = Inl TypeError"

text \<open>
  The body of \<^verbatim>\<open>for r in results\<close> in \<^verbatim>\<open>format_subagent_summary\<close>, on
  \<^verbatim>\<open>(parts, total_cost, total_duration)\<close>. A part is the list of the values of its line.
\<close>

definition summary_run :: "json list \<times> rat \<times> rat \<Rightarrow> json \<Rightarrow> error + json list \<times> rat \<times> rat" where
  "summary_run acc r =
     (case acc of (parts, cost_sum, duration_sum) \<Rightarrow>
      bnd (py_get r ''agent'' (JStr ''?'')) (\<lambda>agent.
      bnd (py_get r ''exitCode'' (JNum (- 1))) (\<lambda>exit_code.
      bnd (py_get r ''model'' (JStr [])) (\<lambda>model.
      bnd (py_get r ''usage'' (JObj [])) (\<lambda>usage.
      bnd (py_get usage ''cost'' (JNum 0)) (\<lambda>cost.
      bnd (py_add cost_sum cost) (\<lambda>cost_sum'.
      bnd (py_get r ''progressSummary'' (JObj [])) (\<lambda>progress.
      bnd (py_get progress ''durationMs'' (JNum 0)) (\<lambda>duration.
      bnd (py_add duration_sum duration) (\<lambda>duration_sum'.
      bnd (py_get progress ''toolCount'' (JNum 0)) (\<lambda>tool_count.
      bnd (py_get r ''task'' (JStr [])) (\<lambda>task_value.
      bnd (py_preview 100 task_value) (\<lambda>task.
      bnd (if truthy cost \<or> truthy duration then
             bnd (py_format_num cost) (\<lambda>c.
             bnd (py_format_duration duration) (\<lambda>d.
               Inr [JArr [JNum c, JStr d, tool_count]]))
           else Inr []) (\<lambda>cost_part.
        Inr (parts @ [JArr [JBool (py_is_zero exit_code), agent, model, JStr task]] @ cost_part,
             cost_sum', duration_sum')))))))))))))))"

text \<open>
  The summary: the values of the header line (mode, number of runs, combined cost,
  combined duration) and the parts.
\<close>

definition format_subagent_summary :: "json \<Rightarrow> error + json" where
  "format_subagent_summary details =
     bnd (py_get details ''mode'' (JStr ''?'')) (\<lambda>mode.
     bnd (py_get details ''results'' (JArr [])) (\<lambda>results.
     bnd (py_iter results) (\<lambda>rs.
     bnd (for_each summary_run rs ([], 0, 0)) (\<lambda>acc.
       case acc of (parts, cost_sum, duration_sum) \<Rightarrow>
         Inr (JArr (JArr [mode, JNum (of_nat (length rs)), JNum cost_sum,
                          JStr (format_duration duration_sum)] # parts))))))"

section \<open>print_overview\<close>

text \<open>\<^verbatim>\<open>x[key]\<close> with a string key: a missing key raises, and only a dict takes such a key.\<close>

fun py_item :: "json \<Rightarrow> string \<Rightarrow> error + json" where
  "py_item (JObj kvs) k = (case map_of kvs k of Some v \<Rightarrow> Inr v | None \<Rightarrow> Inl KeyError)"
| "py_item _ k = Inl TypeError"

definition meta_line :: "string \<Rightarrow> json \<Rightarrow> string \<Rightarrow> error + line list" where
  "meta_line label metadata key =
     bnd (py_get metadata key (JStr ''N/A'')) (\<lambda>v. Inr [Line label [v]])"

definition event_line :: "json \<Rightarrow> error + line list" where
  "event_line evt =
     bnd (py_item evt ''type'') (\<lambda>ty.
       if ty = JStr ''model_change'' then
         bnd (py_get evt ''provider'' (JStr [])) (\<lambda>p.
         bnd (py_get evt ''modelId'' (JStr [])) (\<lambda>m. Inr [Line ''Model'' [p, m]]))
       else if ty = JStr ''thinking_level_change'' then
         bnd (py_get evt ''thinkingLevel'' (JStr [])) (\<lambda>l. Inr [Line ''Thinking'' [l]])
       else Inr [])"

definition overview_header :: "json \<Rightarrow> json list \<Rightarrow> (error + line list) list" where
  "overview_header metadata events =
     [Inr [Line ''='' [], Line ''SESSION OVERVIEW'' [], Line ''='' []],
      meta_line ''ID'' metadata ''id'',
      meta_line ''CWD'' metadata ''cwd'',
      meta_line ''Started'' metadata ''timestamp'',
      meta_line ''Version'' metadata ''version'']
     @ map event_line events"

text \<open>The first loop over the turns, on \<^verbatim>\<open>(total_cost, total_input, total_output)\<close>.\<close>

definition overview_totals_step :: "rat \<times> rat \<times> rat \<Rightarrow> turn \<Rightarrow> error + rat \<times> rat \<times> rat" where
  "overview_totals_step acc t =
     (case acc of (cost_sum, input_sum, output_sum) \<Rightarrow>
      let u = get_or (usage t) (JObj []) in
      bnd (py_get u ''cost'' (JObj [])) (\<lambda>cost.
      bnd (py_get cost ''total'' (JNum 0)) (\<lambda>tot.
      bnd (py_add cost_sum tot) (\<lambda>cost_sum'.
      bnd (py_get u ''input'' (JNum 0)) (\<lambda>i.
      bnd (py_add input_sum i) (\<lambda>input_sum'.
      bnd (py_get u ''output'' (JNum 0)) (\<lambda>outp.
      bnd (py_add output_sum outp) (\<lambda>output_sum'.
        Inr (cost_sum', input_sum', output_sum')))))))))"

text \<open>The second loop, on \<^verbatim>\<open>(subagent_cost, subagent_count)\<close>.\<close>

definition overview_subagent_step :: "rat \<times> int \<Rightarrow> turn \<Rightarrow> error + rat \<times> int" where
  "overview_subagent_step acc t =
     (case acc of (cost_sum, n) \<Rightarrow>
      (case details_of t of
         None \<Rightarrow> Inr (cost_sum, n)
       | Some details \<Rightarrow>
           bnd (py_get details ''results'' (JArr [])) (\<lambda>results.
           bnd (py_iter results) (\<lambda>rs.
           bnd (for_each (\<lambda>c r.
                  bnd (py_get r ''usage'' (JObj [])) (\<lambda>u.
                  bnd (py_get u ''cost'' (JNum 0)) (\<lambda>cost. py_add c cost))) rs cost_sum)
             (\<lambda>cost_sum'. Inr (cost_sum', n + 1))))))"

definition overview_totals :: "turn list \<Rightarrow> error + (rat \<times> rat \<times> rat) \<times> (rat \<times> int)" where
  "overview_totals turns =
     bnd (for_each overview_totals_step turns (0, 0, 0)) (\<lambda>session.
     bnd (for_each overview_subagent_step turns (0, 0)) (\<lambda>sub. Inr (session, sub)))"

definition count_role :: "string \<Rightarrow> turn list \<Rightarrow> nat" where
  "count_role r turns = length (filter (\<lambda>t. role t = JStr r) turns)"

text \<open>The line \<^verbatim>\<open>Turns: N total (u user, a assistant, r tool results)\<close>.\<close>

definition turns_line :: "turn list \<Rightarrow> line" where
  "turns_line turns =
     Line ''Turns'' [JNum (of_nat (length turns)), JNum (of_nat (count_role ''user'' turns)),
                     JNum (of_nat (count_role ''assistant'' turns)),
                     JNum (of_nat (count_role ''toolResult'' turns))]"

definition overview_summary :: "turn list \<Rightarrow> (rat \<times> rat \<times> rat) \<times> (rat \<times> int) \<Rightarrow> line list" where
  "overview_summary turns totals =
     (case totals of ((cost_sum, input_sum, output_sum), (sub_cost, sub_count)) \<Rightarrow>
      (if cost_sum > 0
       then [Line ''Session cost'' [JNum cost_sum],
             Line ''Session tokens'' [JNum (input_sum + output_sum), JNum input_sum, JNum output_sum]]
       else [])
      @ (if sub_cost > 0
         then [Line ''Subagent cost'' [JNum sub_cost, JNum (of_int sub_count)],
               Line ''TOTAL cost'' [JNum (cost_sum + sub_cost)]]
         else [])
      @ [turns_line turns]
      @ (if sub_count \<noteq> 0 then [Line ''Subagent invocations'' [JNum (of_int sub_count)]] else [])
      @ [Line [] [], Line ''-'' [], Line ''TURN SUMMARY'' [], Line ''-'' []])"

definition next_user :: "rstate \<Rightarrow> rstate" where
  "next_user s = s\<lparr>turn_num := turn_num s + 1\<rparr>"

definition overview_user :: "int \<Rightarrow> turn \<Rightarrow> error + line list" where
  "overview_user n t =
     Inr [Line ''USER #'' [timestamp t, JNum (of_int n),
                           JStr (newlines_to_spaces (take 200 (join '' '' (texts t))))]]"

definition overview_assistant :: "turn \<Rightarrow> error + line list" where
  "overview_assistant t =
     (let text_part = (case texts t of
                         [] \<Rightarrow> []
                       | x # xs \<Rightarrow> [CHR 0x22 # newlines_to_spaces (take 150 x) @ [CHR 0x22]]) in
      bnd (if tool_calls t \<noteq> [] then
             bnd (py_join '', '' (map tc_name (tool_calls t))) (\<lambda>names.
               Inr [''tools: ['' @ names @ '']''])
           else Inr []) (\<lambda>tool_part.
      bnd (py_get (get_or (usage t) (JObj [])) ''cost'' (JObj [])) (\<lambda>cost.
      bnd (py_get cost ''total'' JNull) (\<lambda>tot.
      bnd (if truthy tot then bnd (py_format_num tot) (\<lambda>q. Inr [JNum q]) else Inr []) (\<lambda>cost_str.
        let parts = text_part @ tool_part in
        Inr [Line ''ASSISTANT''
               (timestamp t # JStr (if parts \<noteq> [] then join '' | '' parts else ''(empty)'')
                # cost_str)])))))"

definition overview_result :: "turn \<Rightarrow> error + line list" where
  "overview_result t =
     (case details_of t of
        Some details \<Rightarrow>
          bnd (format_subagent_summary details) (\<lambda>sm. Inr [Line ''SUBAGENT'' [timestamp t, sm]])
      | None \<Rightarrow>
          let text = join '' '' (texts t) in
          Inr [Line ''result'' [timestamp t, get_or (tool_name t) (JStr ''?''),
                                JBool (truthy (is_error t)),
                                JStr (if text \<noteq> [] then newlines_to_spaces (take 100 text)
                                      else ''(empty)'')]])"

definition overview_body :: "args \<Rightarrow> rstate \<Rightarrow> turn \<Rightarrow> flow \<times> rstate" where
  "overview_body a s t =
     (if role t = JStr ''user'' then
        let s1 = next_user s in
        windowed a s1 (emit_all [overview_user (turn_num s1) t] s1)
      else if role t = JStr ''assistant'' then
        windowed a s (emit_all [overview_assistant t] s)
      else if role t = JStr ''toolResult'' then
        windowed a s (emit_all [overview_result t] s)
      else (Next, s))"

definition print_overview :: "json \<Rightarrow> json list \<Rightarrow> turn list \<Rightarrow> args \<Rightarrow> flow \<times> rstate" where
  "print_overview metadata events turns a =
     (case emit_all (overview_header metadata events
                     @ [bnd (overview_totals turns) (\<lambda>totals. Inr (overview_summary turns totals))])
                    (start []) of
        (Next, s) \<Rightarrow> loop (overview_body a) turns s
      | stopped \<Rightarrow> stopped)"

section \<open>print_conversation\<close>

definition text_lines :: "args \<Rightarrow> turn \<Rightarrow> line list" where
  "text_lines a t = map (\<lambda>text. Line ''text'' [JStr (truncate text (max_content a))]) (texts t)"

definition summary_step :: "turn \<Rightarrow> error + line list" where
  "summary_step t =
     (case details_of t of
        Some details \<Rightarrow> bnd (format_subagent_summary details) (\<lambda>sm. Inr [Line ''SUBAGENT'' [sm]])
      | None \<Rightarrow> Inr [])"

definition conversation_body :: "args \<Rightarrow> rstate \<Rightarrow> turn \<Rightarrow> flow \<times> rstate" where
  "conversation_body a s t =
     (if role t = JStr ''user'' then
        let s1 = next_user s in
        windowed a s1
          (emit_all [Inr ([Line ''-'' [], Line ''USER'' [timestamp t], Line ''-'' []]
                          @ text_lines a t)] s1)
      else if role t = JStr ''assistant'' \<and> texts t \<noteq> [] then
        windowed a s (emit_all [Inr (Line ''ASSISTANT'' [timestamp t] # text_lines a t)] s)
      else if role t = JStr ''toolResult'' \<and> details_of t \<noteq> None then
        windowed a s (emit_all [summary_step t] s)
      else (Next, s))"

definition print_conversation :: "turn list \<Rightarrow> args \<Rightarrow> flow \<times> rstate" where
  "print_conversation turns a =
     loop (conversation_body a) turns
       (start [Line ''='' [], Line ''CONVERSATION'' [], Line ''='' []])"

section \<open>print_full\<close>

definition full_assistant :: "lib \<Rightarrow> args \<Rightarrow> turn \<Rightarrow> (error + line list) list" where
  "full_assistant L a t =
     [Inr [Line ''ASSISTANT'' [timestamp t, get_or (model t) (JStr [])]]]
     @ map (\<lambda>thought. bnd (py_truncate thought (max_content a)) (\<lambda>v. Inr [Line ''THINKING'' [v]]))
         (thinking t)
     @ [Inr (text_lines a t)]
     @ map (\<lambda>tc. Inr [Line ''TOOL CALL'' [tc_name tc],
                      Line ''args'' [JStr (truncate (dumps L (tc_arguments tc)) (max_content a))]])
         (tool_calls t)"

text \<open>The body of \<^verbatim>\<open>for r in details.get("results", [])\<close>: the paths of one run.\<close>

definition full_run_paths :: "json \<Rightarrow> (error + line list) list" where
  "full_run_paths r =
     [bnd (py_get r ''artifactPaths'' (JObj [])) (\<lambda>ap.
      bnd (py_get r ''sessionFile'' (JStr [])) (\<lambda>sf.
        Inr (if truthy sf then [Line ''session'' [sf]] else []))),
      bnd (py_get r ''artifactPaths'' (JObj [])) (\<lambda>ap.
      bnd (py_get ap ''jsonlPath'' JNull) (\<lambda>p.
        Inr (if truthy p then [Line ''artifact jsonl'' [p]] else []))),
      bnd (py_get r ''artifactPaths'' (JObj [])) (\<lambda>ap.
      bnd (py_get ap ''outputPath'' JNull) (\<lambda>p.
        Inr (if truthy p then [Line ''output'' [p]] else [])))]"

definition full_result :: "args \<Rightarrow> turn \<Rightarrow> (error + line list) list" where
  "full_result a t =
     (case details_of t of
        Some details \<Rightarrow>
          summary_step t
          # (case bnd (py_get details ''results'' (JArr [])) py_iter of
               Inl e \<Rightarrow> [Inl e]
             | Inr rs \<Rightarrow> concat (map full_run_paths rs))
      | None \<Rightarrow>
          [Inr (Line ''RESULT'' [get_or (tool_name t) (JStr ''?''), JBool (truthy (is_error t))]
                # map (\<lambda>text. Line ''result text'' [JStr (truncate text (max_content a))])
                    (texts t))])"

definition full_body :: "lib \<Rightarrow> args \<Rightarrow> rstate \<Rightarrow> turn \<Rightarrow> flow \<times> rstate" where
  "full_body L a s t =
     (if role t = JStr ''user'' then
        let s1 = next_user s in
        windowed a s1
          (emit_all [Inr ([Line ''='' [], Line ''USER'' [timestamp t], Line ''='' []]
                          @ text_lines a t)] s1)
      else if role t = JStr ''assistant'' then
        windowed a s (emit_all (full_assistant L a t) s)
      else if role t = JStr ''toolResult'' then
        windowed a s (emit_all (full_result a t) s)
      else (Next, s))"

definition print_full :: "lib \<Rightarrow> turn list \<Rightarrow> args \<Rightarrow> flow \<times> rstate" where
  "print_full L turns a =
     loop (full_body L a) turns (start [Line ''='' [], Line ''FULL SESSION'' [], Line ''='' []])"

section \<open>print_tools\<close>

text \<open>The body of \<^verbatim>\<open>for tc in turn["tool_calls"]\<close>.\<close>

definition tools_call :: "lib \<Rightarrow> args \<Rightarrow> turn \<Rightarrow> tool_call \<Rightarrow> rstate \<Rightarrow> rstate" where
  "tools_call L a t tc s =
     s\<lparr>tool_num := tool_num s + 1,
       out := out s
         @ [Line ''#'' [timestamp t, JNum (of_int (tool_num s + 1)), tc_name tc],
            Line ''args'' [JStr (truncate (dumps L (tc_arguments tc)) (max_content a))]]\<rparr>"

definition tools_result :: "args \<Rightarrow> turn \<Rightarrow> error + line list" where
  "tools_result a t =
     (case details_of t of
        Some details \<Rightarrow> summary_step t
      | None \<Rightarrow>
          Inr [Line ''result'' [JBool (truthy (is_error t)),
                                JStr (truncate (join '' '' (texts t)) (min (max_content a) 500))]])"

definition tools_body :: "lib \<Rightarrow> args \<Rightarrow> rstate \<Rightarrow> turn \<Rightarrow> flow \<times> rstate" where
  "tools_body L a s t =
     (let s1 = (if role t = JStr ''user'' then next_user s else s) in
      if role t = JStr ''assistant'' \<and> tool_calls t \<noteq> [] then
        windowed a s1 (Next, fold (tools_call L a t) (tool_calls t) s1)
      else if role t = JStr ''toolResult'' then
        windowed a s1 (emit_all [tools_result a t] s1)
      else (Next, s1))"

definition print_tools :: "lib \<Rightarrow> turn list \<Rightarrow> args \<Rightarrow> flow \<times> rstate" where
  "print_tools L turns a =
     loop (tools_body L a) turns (start [Line ''='' [], Line ''TOOL CALLS'' [], Line ''='' []])"

section \<open>print_costs\<close>

text \<open>
  An assistant turn inside the window: its cost is added to \<^verbatim>\<open>total_cost\<close>, then its row
  is printed.
\<close>

definition costs_row :: "rstate \<Rightarrow> turn \<Rightarrow> flow \<times> rstate" where
  "costs_row s t =
     (let u = get_or (usage t) (JObj []) in
      case bnd (py_get u ''cost'' (JObj [])) (\<lambda>cost.
           bnd (py_get cost ''total'' (JNum 0)) (\<lambda>tot.
           bnd (py_add (total_cost s) tot) (\<lambda>cost_sum. Inr (tot, cost_sum)))) of
        Inl e \<Rightarrow> (Raise e, s)
      | Inr (tot, cost_sum) \<Rightarrow>
          emit_all
            [bnd (py_format_str (get_or (model t) (JStr ''?''))) (\<lambda>m.
             bnd (py_get u ''input'' (JNum 0)) (\<lambda>i.
             bnd (py_format_num i) (\<lambda>tokens_in.
             bnd (py_get u ''output'' (JNum 0)) (\<lambda>outp.
             bnd (py_format_num outp) (\<lambda>tokens_out.
             bnd (py_get u ''cacheRead'' (JNum 0)) (\<lambda>c.
             bnd (py_format_num c) (\<lambda>cache.
             bnd (py_format_num tot) (\<lambda>cost.
               Inr [Line ''row'' [JNum (of_int (assistant_num s)), timestamp t, m,
                                  JNum tokens_in, JNum tokens_out, JNum cache, JNum cost]]))))))))]
            (s\<lparr>total_cost := cost_sum\<rparr>))"

definition has_usage :: "turn \<Rightarrow> bool" where
  "has_usage t = (case usage t of Some u \<Rightarrow> truthy u | None \<Rightarrow> False)"

definition costs_body :: "args \<Rightarrow> rstate \<Rightarrow> turn \<Rightarrow> flow \<times> rstate" where
  "costs_body a s t =
     (let s1 = (if role t = JStr ''user'' then next_user s else s) in
      if role t \<noteq> JStr ''assistant'' \<or> \<not> has_usage t then (Next, s1)
      else
        let s2 = s1\<lparr>assistant_num := assistant_num s1 + 1\<rparr> in
        windowed a s2 (costs_row s2 t))"

text \<open>The body of \<^verbatim>\<open>for r in details.get("results", [])\<close> in the second loop.\<close>

definition costs_subagent_run :: "rstate \<Rightarrow> json \<Rightarrow> flow \<times> rstate" where
  "costs_subagent_run s r =
     (let s1 = s\<lparr>sub_num := sub_num s + 1\<rparr> in
      case bnd (py_get r ''usage'' (JObj [])) (\<lambda>u.
           bnd (py_get u ''cost'' (JNum 0)) (\<lambda>cost.
           bnd (py_add (subagent_cost s1) cost) (\<lambda>cost_sum. Inr (u, cost, cost_sum)))) of
        Inl e \<Rightarrow> (Raise e, s1)
      | Inr (u, cost, cost_sum) \<Rightarrow>
          emit_all
            [bnd (py_get r ''model'' (JStr ''?'')) (\<lambda>m.
             bnd (py_get r ''agent'' (JStr ''?'')) (\<lambda>agent.
             bnd (py_get r ''progressSummary'' (JObj [])) (\<lambda>progress.
             bnd (py_get u ''input'' (JNum 0)) (\<lambda>i.
             bnd (py_get u ''output'' (JNum 0)) (\<lambda>outp.
             bnd (py_get u ''cacheRead'' (JNum 0)) (\<lambda>c.
             bnd (py_concat_slash agent m) (\<lambda>agent_model.
             bnd (py_format_num i) (\<lambda>tokens_in.
             bnd (py_format_num outp) (\<lambda>tokens_out.
             bnd (py_format_num c) (\<lambda>cache.
             bnd (py_format_num cost) (\<lambda>cost'.
               Inr [Line ''S row'' [JNum (of_int (sub_num s1)), JStr agent_model,
                                    JNum tokens_in, JNum tokens_out, JNum cache,
                                    JNum cost']])))))))))))]
            (s1\<lparr>subagent_cost := cost_sum\<rparr>))"

definition costs_subagent_turn :: "rstate \<Rightarrow> turn \<Rightarrow> flow \<times> rstate" where
  "costs_subagent_turn s t =
     (case details_of t of
        None \<Rightarrow> (Next, s)
      | Some details \<Rightarrow>
          (case bnd (py_get details ''results'' (JArr [])) py_iter of
             Inl e \<Rightarrow> (Raise e, s)
           | Inr rs \<Rightarrow> loop costs_subagent_run rs s))"

definition costs_totals :: "rstate \<Rightarrow> line list" where
  "costs_totals s =
     Line ''-'' []
     # (if subagent_cost s > 0
        then [Line ''SESSION'' [JNum (total_cost s)], Line ''SUBAGENTS'' [JNum (subagent_cost s)]]
        else [])
     @ [Line ''TOTAL'' [JNum (total_cost s + subagent_cost s)]]"

definition print_costs :: "turn list \<Rightarrow> args \<Rightarrow> flow \<times> rstate" where
  "print_costs turns a =
     (case loop (costs_body a) turns
             (start [Line ''='' [], Line ''COST BREAKDOWN'' [], Line ''='' [],
                     Line ''# Time Model In Out Cache Cost'' [], Line ''-'' []]) of
        (Raise e, s) \<Rightarrow> (Raise e, s)
      | (ended, s) \<Rightarrow>
          (case loop costs_subagent_turn turns s of
             (Raise e, s') \<Rightarrow> (Raise e, s')
           | (ended', s') \<Rightarrow> (Next, s'\<lparr>out := out s' @ costs_totals s'\<rparr>)))"

section \<open>print_subagents\<close>

text \<open>
  The test of the inner loop of the backward scan:
  \<^verbatim>\<open>isinstance(item, dict) and item.get("type") == "toolCall" and item.get("name") == "subagent"\<close>.
\<close>

definition is_subagent_call :: "json \<Rightarrow> bool" where
  "is_subagent_call item =
     (is_dict item \<and> py_get item ''type'' JNull = Inr (JStr ''toolCall'')
      \<and> py_get item ''name'' JNull = Inr (JStr ''subagent''))"

text \<open>
  The body of \<^verbatim>\<open>for j in range(i - 1, max(i - 5, -1), -1)\<close>, on \<^verbatim>\<open>call_args\<close>. The inner
  loop over the items ends at the first subagent call (\<^verbatim>\<open>break\<close>); that \<^verbatim>\<open>break\<close> leaves the
  inner loop only, and the loop over \<open>j\<close> goes on to the next message.
\<close>

definition scan_message :: "json \<Rightarrow> json \<Rightarrow> error + json" where
  "scan_message call_args prev =
     bnd (py_get prev ''message'' (JObj [])) (\<lambda>prev_msg.
     bnd (py_get prev_msg ''content'' (JArr [])) (\<lambda>prev_content.
       case prev_content of
         JArr items \<Rightarrow>
           (case find is_subagent_call items of
              Some item \<Rightarrow> py_get item ''arguments'' (JObj [])
            | None \<Rightarrow> Inr call_args)
       | _ \<Rightarrow> Inr call_args))"

text \<open>
  The indices \<^verbatim>\<open>range(i - 1, max(i - 5, -1), -1)\<close>: from \<open>i - 1\<close> down to \<open>i - 4\<close>, or down to
  \<open>0\<close> when \<open>i < 4\<close> (the subtraction of natural numbers stops at \<open>0\<close>).
\<close>

definition scan_range :: "nat \<Rightarrow> nat list" where
  "scan_range i = rev [i - 4 ..< i]"

definition find_call_args :: "json list \<Rightarrow> nat \<Rightarrow> error + json" where
  "find_call_args messages i =
     for_each scan_message (map (\<lambda>j. messages ! j) (scan_range i)) (JObj [])"

text \<open>\<^verbatim>\<open>str(x)\<close>: a string is its own text.\<close>

definition to_str :: "lib \<Rightarrow> json \<Rightarrow> string" where
  "to_str L v = (case v of JStr s \<Rightarrow> s | _ \<Rightarrow> py_str L v)"

definition plan_steps :: "lib \<Rightarrow> string \<Rightarrow> json \<Rightarrow> (error + line list) list" where
  "plan_steps L label plan =
     bnd (py_len plan) (\<lambda>n. Inr [Line label [JNum (of_nat n)]])
     # (case py_iter plan of
          Inl e \<Rightarrow> [Inl e]
        | Inr steps \<Rightarrow>
            map (\<lambda>step.
                  bnd (py_get step ''agent'' (JStr ''?'')) (\<lambda>agent.
                  bnd (py_get step ''task'' (JStr [])) (\<lambda>task.
                    Inr [Line ''step'' [agent, JStr (take 120 (to_str L task))]]))) steps)"

definition plan_lines :: "lib \<Rightarrow> json \<Rightarrow> (error + line list) list" where
  "plan_lines L call_args =
     (case py_get call_args ''chain'' JNull of
        Inl e \<Rightarrow> [Inl e]
      | Inr chain \<Rightarrow>
          if truthy chain then plan_steps L ''Chain steps'' chain
          else (case py_get call_args ''tasks'' JNull of
                  Inl e \<Rightarrow> [Inl e]
                | Inr tasks \<Rightarrow>
                    if truthy tasks then plan_steps L ''Parallel tasks'' tasks else []))"

text \<open>
  The assignments at the head of \<^verbatim>\<open>for r in results\<close>, which raise before anything of the
  run is printed: the new \<^verbatim>\<open>(total_cost, total_duration)\<close>.
\<close>

definition run_sums :: "rstate \<Rightarrow> json \<Rightarrow> error + rat \<times> rat" where
  "run_sums s r =
     bnd (py_get r ''usage'' (JObj [])) (\<lambda>u.
     bnd (py_get u ''cost'' (JNum 0)) (\<lambda>cost.
     bnd (py_add (total_cost s) cost) (\<lambda>cost_sum.
     bnd (py_get u ''turns'' (JNum 0)) (\<lambda>turns_count.
     bnd (py_get r ''progressSummary'' (JObj [])) (\<lambda>progress.
     bnd (py_get progress ''durationMs'' (JNum 0)) (\<lambda>duration.
     bnd (py_add (total_duration s) duration) (\<lambda>duration_sum.
     bnd (py_get progress ''toolCount'' (JNum 0)) (\<lambda>tool_count.
       Inr (cost_sum, duration_sum)))))))))"

text \<open>A path line: \<^verbatim>\<open>if p: exists = Path(p).exists()\<close>, then the line with its marker.\<close>

definition path_line :: "lib \<Rightarrow> string \<Rightarrow> json \<Rightarrow> error + line list" where
  "path_line L label p =
     (if truthy p then bnd (py_exists L p) (\<lambda>ex. Inr [Line label [p, JBool ex]]) else Inr [])"

definition run_lines :: "lib \<Rightarrow> int \<Rightarrow> json \<Rightarrow> (error + line list) list" where
  "run_lines L n r =
     [bnd (py_get r ''agent'' (JStr ''?'')) (\<lambda>agent.
      bnd (py_get r ''exitCode'' (JNum (- 1))) (\<lambda>exit_code.
      bnd (py_get r ''model'' (JStr [])) (\<lambda>m.
        Inr [Line ''Run #'' [JNum (of_int n), agent],
             Line ''Status'' [JBool (py_is_zero exit_code)],
             Line ''Model'' [m]]))),
      bnd (py_get r ''task'' (JStr [])) (\<lambda>task.
      bnd (py_replace_newlines task) (\<lambda>text. Inr [Line ''Task'' [JStr (truncate text 300)]])),
      bnd (py_get r ''skills'' (JArr [])) (\<lambda>skills.
        if truthy skills
        then bnd (bnd (py_iter skills) (py_join '', '')) (\<lambda>joined. Inr [Line ''Skills'' [JStr joined]])
        else Inr []),
      bnd (py_get r ''usage'' (JObj [])) (\<lambda>u.
      bnd (py_get u ''cost'' (JNum 0)) (\<lambda>cost.
      bnd (py_format_num cost) (\<lambda>c. Inr [Line ''Cost'' [JNum c]]))),
      bnd (py_get r ''progressSummary'' (JObj [])) (\<lambda>progress.
      bnd (py_get progress ''durationMs'' (JNum 0)) (\<lambda>duration.
      bnd (py_format_duration duration) (\<lambda>d. Inr [Line ''Duration'' [JStr d]]))),
      bnd (py_get r ''usage'' (JObj [])) (\<lambda>u.
      bnd (py_get u ''input'' (JNum 0)) (\<lambda>i.
      bnd (py_format_num i) (\<lambda>tokens_in.
      bnd (py_get u ''output'' (JNum 0)) (\<lambda>outp.
      bnd (py_format_num outp) (\<lambda>tokens_out.
      bnd (py_get u ''cacheRead'' (JNum 0)) (\<lambda>c.
      bnd (py_format_num c) (\<lambda>cache.
        Inr [Line ''Tokens'' [JNum tokens_in, JNum tokens_out, JNum cache]]))))))),
      bnd (py_get r ''usage'' (JObj [])) (\<lambda>u.
      bnd (py_get u ''turns'' (JNum 0)) (\<lambda>turns_count.
      bnd (py_get r ''progressSummary'' (JObj [])) (\<lambda>progress.
      bnd (py_get progress ''toolCount'' (JNum 0)) (\<lambda>tool_count.
        Inr [Line ''Tools'' [tool_count, turns_count]])))),
      bnd (py_get r ''sessionFile'' (JStr [])) (path_line L ''Session''),
      bnd (py_get r ''artifactPaths'' (JObj [])) (\<lambda>ap.
      bnd (py_get ap ''jsonlPath'' JNull) (path_line L ''JSONL'')),
      bnd (py_get r ''artifactPaths'' (JObj [])) (\<lambda>ap.
      bnd (py_get ap ''outputPath'' JNull) (path_line L ''Output''))]"

text \<open>The body of \<^verbatim>\<open>for r in results\<close>.\<close>

definition subagent_run :: "lib \<Rightarrow> rstate \<Rightarrow> json \<Rightarrow> flow \<times> rstate" where
  "subagent_run L s r =
     (let s1 = s\<lparr>sub_num := sub_num s + 1\<rparr> in
      case bnd (py_get r ''agent'' (JStr ''?'')) (\<lambda>agent. run_sums s1 r) of
        Inl e \<Rightarrow> (Raise e, s1)
      | Inr (cost_sum, duration_sum) \<Rightarrow>
          emit_all (run_lines L (sub_num s1) r)
            (s1\<lparr>total_cost := cost_sum, total_duration := duration_sum\<rparr>))"

text \<open>One invocation: the head lines, the plan, the runs and the combined line.\<close>

definition invocation :: "lib \<Rightarrow> json list \<Rightarrow> nat \<Rightarrow> json \<Rightarrow> rstate \<Rightarrow> flow \<times> rstate" where
  "invocation L messages i details s =
     (case bnd (py_get details ''mode'' (JStr ''?'')) (\<lambda>mode_tag.
           bnd (py_get details ''results'' (JArr [])) (\<lambda>results.
           bnd (py_get details ''artifacts'' (JObj [])) (\<lambda>artifacts.
           bnd (find_call_args messages i) (\<lambda>call_args.
             Inr (mode_tag, results, call_args))))) of
        Inl e \<Rightarrow> (Raise e, s)
      | Inr (mode_tag, results, call_args) \<Rightarrow>
          (case emit_all
                  (Inr [Line ''-'' [], Line ''INVOCATION #'' [JNum (of_int (sub_num s + 1)), mode_tag],
                        Line ''-'' []]
                   # plan_lines L call_args)
                  s of
             (Next, s1) \<Rightarrow>
               (case py_iter results of
                  Inl e \<Rightarrow> (Raise e, s1)
                | Inr rs \<Rightarrow>
                    (case loop (subagent_run L) rs (s1\<lparr>total_cost := 0, total_duration := 0\<rparr>) of
                       (Next, s2) \<Rightarrow>
                         emit_all
                           [bnd (py_len results) (\<lambda>n.
                              Inr (if n > 1
                                   then [Line ''Combined''
                                           [JNum (total_cost s2),
                                            JStr (format_duration (total_duration s2))]]
                                   else []))]
                           s2
                     | stopped \<Rightarrow> stopped))
           | stopped \<Rightarrow> stopped))"

text \<open>The body of \<^verbatim>\<open>for i, entry in enumerate(messages)\<close>.\<close>

definition subagents_body :: "lib \<Rightarrow> json list \<Rightarrow> rstate \<Rightarrow> nat \<times> json \<Rightarrow> flow \<times> rstate" where
  "subagents_body L messages s ie =
     (case ie of (i, entry) \<Rightarrow>
        (case bnd (py_get entry ''message'' (JObj [])) extract_subagent_details of
           Inl e \<Rightarrow> (Raise e, s)
         | Inr None \<Rightarrow> (Next, s)
         | Inr (Some details) \<Rightarrow> invocation L messages i details (s\<lparr>found_any := True\<rparr>)))"

definition print_subagents :: "lib \<Rightarrow> turn list \<Rightarrow> json list \<Rightarrow> args \<Rightarrow> flow \<times> rstate" where
  "print_subagents L turns messages a =
     (case loop (subagents_body L messages) (enumerate 0 messages)
             (start [Line ''='' [], Line ''SUBAGENT RUNS'' [], Line ''='' []]) of
        (Next, s) \<Rightarrow>
          (Next, if \<not> found_any s
                 then s\<lparr>out := out s @ [Line ''No subagent invocations found in this session.'' []]\<rparr>
                 else s)
      | stopped \<Rightarrow> stopped)"

section \<open>main\<close>

text \<open>
  How the process ends: normally, with \<^verbatim>\<open>sys.exit(1)\<close> when the session file does not
  exist (the message goes to the standard error stream), or with an uncaught exception.
  The second component of \<open>main\<close> is what was printed on the standard output. The file
  is given by its lines, \<open>None\<close> when it does not exist.
\<close>

datatype outcome = Done | Exit nat | Raised error

definition finish :: "flow \<times> rstate \<Rightarrow> outcome \<times> line list" where
  "finish r = (case r of (Raise e, s) \<Rightarrow> (Raised e, out s) | (ended, s) \<Rightarrow> (Done, out s))"

definition main :: "lib \<Rightarrow> args \<Rightarrow> string list option \<Rightarrow> outcome \<times> line list" where
  "main L a file =
     (case file of
        None \<Rightarrow> (Exit 1, [])
      | Some lines \<Rightarrow>
          (case parse_session L lines of
             Inl e \<Rightarrow> (Raised e, [])
           | Inr (metadata, events, messages) \<Rightarrow>
               (case extract_turns messages of
                  Inl e \<Rightarrow> (Raised e, [])
                | Inr turns \<Rightarrow>
                    finish (case mode a of
                              Overview \<Rightarrow> print_overview metadata events turns a
                            | Conversation \<Rightarrow> print_conversation turns a
                            | Full \<Rightarrow> print_full L turns a
                            | Tools \<Rightarrow> print_tools L turns a
                            | Costs \<Rightarrow> print_costs turns a
                            | Subagents \<Rightarrow> print_subagents L turns messages a))))"

section \<open>Notions of the specification\<close>

text \<open>
  The records of a file: the result of \<^verbatim>\<open>json.loads\<close> on every line that is not blank, in
  file order. A record is message-typed when its \<^verbatim>\<open>type\<close> is \<^verbatim>\<open>message\<close>.
\<close>

definition records :: "lib \<Rightarrow> string list \<Rightarrow> json option list" where
  "records L lines = map (loads L) (filter (\<lambda>l. l \<noteq> []) (map strip lines))"

definition is_message_record :: "json \<Rightarrow> bool" where
  "is_message_record obj = (py_get obj ''type'' JNull = Inr (JStr ''message''))"

text \<open>
  A well-formed session file: every line that is not blank is a JSON object, and a
  message record has the shape the normaliser reads, that is, its \<^verbatim>\<open>message\<close> is an object
  (or absent) and, where the content is a list, the text of every \<^verbatim>\<open>text\<close> item is a string
  (or absent).
\<close>

definition wf_item :: "json \<Rightarrow> bool" where
  "wf_item item =
     (if is_dict item \<and> py_get item ''type'' (JStr []) = Inr (JStr ''text'')
      then (case py_get item ''text'' (JStr []) of Inr (JStr s) \<Rightarrow> True | _ \<Rightarrow> False)
      else True)"

definition wf_message :: "json \<Rightarrow> bool" where
  "wf_message entry =
     (case py_get entry ''message'' (JObj []) of
        Inr (JObj kvs) \<Rightarrow>
          (case py_get (JObj kvs) ''content'' (JStr []) of
             Inr (JArr items) \<Rightarrow> list_all wf_item items
           | _ \<Rightarrow> True)
      | _ \<Rightarrow> False)"

definition wf_record :: "json option \<Rightarrow> bool" where
  "wf_record r =
     (case r of
        Some obj \<Rightarrow> is_dict obj \<and> (if is_message_record obj then wf_message obj else True)
      | None \<Rightarrow> False)"

definition well_formed :: "lib \<Rightarrow> string list \<Rightarrow> bool" where
  "well_formed L lines = list_all wf_record (records L lines)"

text \<open>
  The text segments of a content field under the generic rule, in the words of the
  specification: a string that is not blank is one segment; in a list, every element
  tagged \<^verbatim>\<open>text\<close> whose text is not blank is a segment.
\<close>

definition generic_item_texts :: "json \<Rightarrow> string list" where
  "generic_item_texts item =
     (if is_dict item \<and> py_get item ''type'' (JStr []) = Inr (JStr ''text'')
      then (case py_get item ''text'' (JStr []) of
              Inr (JStr s) \<Rightarrow> if strip s \<noteq> [] then [s] else []
            | _ \<Rightarrow> [])
      else [])"

definition generic_texts :: "json \<Rightarrow> string list" where
  "generic_texts content =
     (case content of
        JStr s \<Rightarrow> if strip s \<noteq> [] then [s] else []
      | JArr items \<Rightarrow> concat (map generic_item_texts items)
      | _ \<Rightarrow> [])"

text \<open>
  The text segments of a tool result as the code extracts them: a string that is not
  blank is one segment; in a list, every element tagged \<^verbatim>\<open>text\<close> is a segment, blank or
  not, and an element with no text gives the empty segment.
\<close>

definition result_item_texts :: "json \<Rightarrow> string list" where
  "result_item_texts item =
     (if is_dict item \<and> py_get item ''type'' JNull = Inr (JStr ''text'')
      then (case py_get item ''text'' (JStr []) of
              Inr (JStr s) \<Rightarrow> [s]
            | _ \<Rightarrow> [])
      else [])"

definition result_texts :: "json \<Rightarrow> string list" where
  "result_texts content =
     (case content of
        JArr items \<Rightarrow> concat (map result_item_texts items)
      | JStr s \<Rightarrow> if strip s \<noteq> [] then [s] else []
      | _ \<Rightarrow> [])"

text \<open>The keys of a turn that the content rules do not touch.\<close>

definition frame :: "turn \<Rightarrow> json \<times> json \<times> json \<times> json option \<times> json option \<times> json option \<times> json option \<times> json option \<times> json option \<times> json option" where
  "frame t = (role t, timestamp t, is_error t, model t, provider t, usage t, stop_reason t,
              tool_call_id t, tool_name t, subagent_details t)"


section \<open>Windowing, in the words of the specification\<close>

text \<open>
  The number of user turns in a list of turns. For the turns up to and including some
  turn, this is the 1-based number of the nearest user turn at or before it, and 0 when
  there is none.
\<close>

definition is_user :: "turn \<Rightarrow> bool" where
  "is_user t = (role t = JStr ''user'')"

definition users :: "turn list \<Rightarrow> int" where
  "users turns = int (length (filter is_user turns))"

text \<open>The value of the counter after a turn, when it was \<open>n\<close> before it.\<close>

definition turn_number :: "int \<Rightarrow> turn \<Rightarrow> int" where
  "turn_number n t = (if is_user t then n + 1 else n)"


definition in_window :: "args \<Rightarrow> int \<Rightarrow> bool" where
  "in_window a n = ((offset a = 0 \<or> n > offset a) \<and> (limit a = 0 \<or> n \<le> offset a + limit a))"

text \<open>The same arguments with no window: offset 0 and limit 0.\<close>

definition unwindowed :: "args \<Rightarrow> args" where
  "unwindowed a = a\<lparr>offset := 0, limit := 0\<rparr>"

text \<open>
  What the bodies of the five windowed loops have in common: the body advances the
  counter by one on a user turn and not otherwise; a turn whose number is in the window
  is treated exactly as with no window; for a turn whose number is outside it nothing is
  printed, nothing is added to the cost and nothing is raised; and the body breaks only
  beyond the upper end of the window. \<open>obeys a s n r r0\<close> says so of the result \<open>r\<close> of
  one iteration from the variables \<open>s\<close>, for the turn number \<open>n\<close>, where \<open>r0\<close> is the result
  with no window.
\<close>

definition obeys :: "args \<Rightarrow> rstate \<Rightarrow> int \<Rightarrow> flow \<times> rstate \<Rightarrow> flow \<times> rstate \<Rightarrow> bool" where
  "obeys a s n r r0 =
     (turn_num (snd r) = n
      \<and> (in_window a n \<longrightarrow> r = r0)
      \<and> (\<not> in_window a n \<longrightarrow>
            out (snd r) = out s \<and> total_cost (snd r) = total_cost s \<and> (\<forall>e. fst r \<noteq> Raise e))
      \<and> (fst r = Break \<longrightarrow> limit a \<noteq> 0 \<and> n > offset a + limit a))"

definition window_respecting :: "(args \<Rightarrow> rstate \<Rightarrow> turn \<Rightarrow> flow \<times> rstate) \<Rightarrow> bool" where
  "window_respecting B =
     (\<forall>a s t. obeys a s (turn_number (turn_num s) t) (B a s t) (B (unwindowed a) s t))"

text \<open>
  The cost of a turn, \<^verbatim>\<open>usage.get("cost", {}).get("total", 0)\<close> read as a number; \<open>cost_of\<close>
  is 0 where that is not a number. The session cost in the words of the specification is
  the sum over the assistant turns that carry usage; \<open>window_cost\<close> is the same sum over
  those of them whose turn number is in the window.
\<close>

definition turn_cost :: "turn \<Rightarrow> error + rat" where
  "turn_cost t =
     bnd (py_get (get_or (usage t) (JObj [])) ''cost'' (JObj [])) (\<lambda>cost.
     bnd (py_get cost ''total'' (JNum 0)) (py_add 0))"

definition cost_of :: "turn \<Rightarrow> rat" where
  "cost_of t = (case turn_cost t of Inr q \<Rightarrow> q | Inl e \<Rightarrow> 0)"

definition carries_usage :: "turn \<Rightarrow> bool" where
  "carries_usage t = (role t = JStr ''assistant'' \<and> has_usage t)"

definition session_cost :: "turn list \<Rightarrow> rat" where
  "session_cost turns = sum_list (map (\<lambda>t. if carries_usage t then cost_of t else 0) turns)"

text \<open>Every turn with its turn number, counting on from \<open>n\<close>.\<close>

fun numbered :: "int \<Rightarrow> turn list \<Rightarrow> (int \<times> turn) list" where
  "numbered n [] = []"
| "numbered n (t # ts) = (turn_number n t, t) # numbered (turn_number n t) ts"

definition window_cost_from :: "args \<Rightarrow> int \<Rightarrow> turn list \<Rightarrow> rat" where
  "window_cost_from a n turns =
     sum_list (map (\<lambda>nt. if carries_usage (snd nt) \<and> in_window a (fst nt) then cost_of (snd nt) else 0)
                 (numbered n turns))"

definition window_cost :: "args \<Rightarrow> turn list \<Rightarrow> rat" where
  "window_cost a turns = window_cost_from a 0 turns"



section \<open>Example sessions\<close>

text \<open>
  Concrete inputs for the theorems below. The example library reads five lines: a
  session record, a user message, an assistant message with a text, a tool call and a
  usage whose cost total is 2, a tool result, and a message whose role is \<^verbatim>\<open>system\<close>.
  Every other text is not valid JSON.
\<close>

definition session_record :: json where
  "session_record = JObj [(''type'', JStr ''session''), (''id'', JStr ''S1'')]"

definition user_record :: json where
  "user_record =
     JObj [(''type'', JStr ''message''),
           (''message'', JObj [(''role'', JStr ''user''), (''content'', JStr ''hello'')])]"

definition assistant_record :: json where
  "assistant_record =
     JObj [(''type'', JStr ''message''),
           (''message'',
            JObj [(''role'', JStr ''assistant''),
                  (''content'', JArr [JObj [(''type'', JStr ''text''), (''text'', JStr ''hi'')]]),
                  (''usage'', JObj [(''cost'', JObj [(''total'', JNum 2)])])])]"

definition result_record :: json where
  "result_record =
     JObj [(''type'', JStr ''message''),
           (''message'',
            JObj [(''role'', JStr ''toolResult''), (''toolName'', JStr ''bash''),
                  (''content'', JArr [JObj [(''type'', JStr ''text''), (''text'', JStr [])]])])]"

definition system_record :: json where
  "system_record =
     JObj [(''type'', JStr ''message''),
           (''message'', JObj [(''role'', JStr ''system''), (''content'', JStr ''note'')])]"

definition example_lib :: lib where
  "example_lib =
     \<lparr>loads = (\<lambda>s. if s = ''SESSION'' then Some session_record
                    else if s = ''USER'' then Some user_record
                    else if s = ''ASSISTANT'' then Some assistant_record
                    else if s = ''RESULT'' then Some result_record
                    else if s = ''SYSTEM'' then Some system_record
                    else None),
      dumps = (\<lambda>v. ''{}''),
      py_str = (\<lambda>v. []),
      path_exists = (\<lambda>p. False)\<rparr>"

definition example_file :: "string list" where
  "example_file = [''SESSION'', [], ''USER'', '' ASSISTANT '']"

definition default_args :: args where
  "default_args = \<lparr>mode = Overview, offset = 0, limit = 0, max_content = 2000\<rparr>"

text \<open>The turns of the example records.\<close>

definition user_turn :: turn where
  "user_turn = (new_turn (JStr ''user'') (JStr []) (JBool False))\<lparr>texts := [''hello'']\<rparr>"

definition assistant_turn :: turn where
  "assistant_turn =
     (new_turn (JStr ''assistant'') (JStr []) (JBool False))
       \<lparr>texts := [''hi''], model := Some (JStr []), provider := Some (JStr []),
        usage := Some (JObj [(''cost'', JObj [(''total'', JNum 2)])]),
        stop_reason := Some (JStr [])\<rparr>"

definition result_turn :: turn where
  "result_turn =
     (new_turn (JStr ''toolResult'') (JStr []) (JBool False))
       \<lparr>texts := [[]], tool_call_id := Some (JStr []), tool_name := Some (JStr ''bash'')\<rparr>"

definition system_turn :: turn where
  "system_turn = (new_turn (JStr ''system'') (JStr []) (JBool False))\<lparr>texts := [''note'']\<rparr>"

text \<open>
  Two subagent invocations in a row: an assistant message that calls \<^verbatim>\<open>subagent\<close> with the
  chain of agent \<^verbatim>\<open>A\<close>, its tool result, an assistant message that calls \<^verbatim>\<open>subagent\<close> with the
  chain of agent \<^verbatim>\<open>B\<close>, and its tool result.
\<close>

definition plan_of :: "string \<Rightarrow> json" where
  "plan_of agent = JObj [(''chain'', JArr [JObj [(''agent'', JStr agent), (''task'', JStr ''run'')]])]"

definition call_record :: "json \<Rightarrow> json" where
  "call_record arguments =
     JObj [(''type'', JStr ''message''),
           (''message'',
            JObj [(''role'', JStr ''assistant''),
                  (''content'',
                   JArr [JObj [(''type'', JStr ''toolCall''), (''name'', JStr ''subagent''),
                               (''arguments'', arguments)]])])]"

definition subagent_result_record :: json where
  "subagent_result_record =
     JObj [(''type'', JStr ''message''),
           (''message'',
            JObj [(''role'', JStr ''toolResult''), (''toolName'', JStr ''subagent''),
                  (''content'', JArr [JObj [(''type'', JStr ''text''), (''text'', JStr ''done'')]]),
                  (''details'', JObj [(''mode'', JStr ''chain''), (''results'', JArr [])])])]"

definition two_invocations :: "json list" where
  "two_invocations =
     [call_record (plan_of ''A''), subagent_result_record,
      call_record (plan_of ''B''), subagent_result_record]"

text \<open>A tool result of 501 characters, and the arguments with \<^verbatim>\<open>--max-content 0\<close>.\<close>

definition long_result_turn :: turn where
  "long_result_turn =
     (new_turn (JStr ''toolResult'') (JStr []) (JBool False))
       \<lparr>texts := [replicate 501 (CHR ''x'')], tool_call_id := Some (JStr []),
        tool_name := Some (JStr ''bash'')\<rparr>"

definition unlimited_args :: args where
  "unlimited_args = \<lparr>mode = Tools, offset = 0, limit = 0, max_content = 0\<rparr>"

section \<open>Properties\<close>

subsection \<open>Sequencing\<close>


lemma bnd_Inl [simp]: "bnd (Inl e) f = Inl e"
  by (simp add: bnd_def)

lemma bnd_Inr [simp]: "bnd (Inr x) f = f x"
  by (simp add: bnd_def)

lemma bnd_eq_Inr: "bnd m f = Inr y \<longleftrightarrow> (\<exists>x. m = Inr x \<and> f x = Inr y)"
  by (cases m) simp_all

lemma for_each_collect:
  "for_each (\<lambda>acc x. bnd (f x) (\<lambda>y. Inr (acc @ [y]))) xs acc = Inr ys
   \<longleftrightarrow> (\<exists>ys'. ys = acc @ ys' \<and> list_all2 (\<lambda>x y. f x = Inr y) xs ys')"
proof (induction xs arbitrary: acc ys)
  case Nil
  show ?case by auto
next
  case (Cons x xs)
  show ?case
  proof (cases "f x")
    case (Inl e)
    then show ?thesis by (simp add: list_all2_Cons1)
  next
    case (Inr y)
    then show ?thesis by (auto simp: Cons.IH list_all2_Cons1)
  qed
qed

lemma for_each_succeeds:
  "(\<And>x s. x \<in> set xs \<Longrightarrow> \<exists>s'. f s x = Inr s') \<Longrightarrow> \<exists>s'. for_each f xs s = Inr s'"
proof (induction xs arbitrary: s)
  case Nil
  show ?case by simp
next
  case (Cons x xs)
  from Cons.prems [of x s] obtain s1 where "f s x = Inr s1" by auto
  moreover from Cons.IH [of s1] Cons.prems obtain s2 where "for_each f xs s1 = Inr s2" by auto
  ultimately show ?case by simp
qed

subsection \<open>Truncation\<close>







subsection \<open>Parsing and normalisation\<close>

lemma parse_lines_messages:
  "parse_lines L lines (md, evs, msgs) = Inr (md', evs', msgs') \<Longrightarrow>
   \<exists>objs. records L lines = map Some objs \<and> list_all is_dict objs
     \<and> msgs' = msgs @ filter is_message_record objs"
proof (induction lines arbitrary: md evs msgs)
  case Nil
  then show ?case by (simp add: records_def)
next
  case (Cons l ls)
  show ?case
  proof (cases "strip l = []")
    case True
    with Cons.prems have "parse_lines L ls (md, evs, msgs) = Inr (md', evs', msgs')" by simp
    from Cons.IH [OF this] True show ?thesis by (simp add: records_def)
  next
    case False
    with Cons.prems obtain obj where obj: "loads L (strip l) = Some obj"
      by (cases "loads L (strip l)") (simp_all add: Let_def)
    with False Cons.prems obtain t where t: "py_get obj ''type'' JNull = Inr t"
      by (cases "py_get obj ''type'' JNull") (simp_all add: Let_def)
    then have d: "is_dict obj" by (cases obj) simp_all
    from False obj t Cons.prems obtain md1 evs1 where
      rest: "parse_lines L ls (md1, evs1, if t = JStr ''message'' then msgs @ [obj] else msgs)
               = Inr (md', evs', msgs')"
      by (auto simp: Let_def split: if_splits)
    from Cons.IH [OF rest] obtain objs where
      objs: "records L ls = map Some objs" "list_all is_dict objs"
        "msgs' = (if t = JStr ''message'' then msgs @ [obj] else msgs) @ filter is_message_record objs"
      by blast
    have "records L (l # ls) = map Some (obj # objs)"
      using False obj objs(1) by (simp add: records_def)
    moreover have "list_all is_dict (obj # objs)" using d objs(2) by simp
    moreover have "msgs' = msgs @ filter is_message_record (obj # objs)"
      using objs(3) t by (simp add: is_message_record_def)
    ultimately show ?thesis by blast
  qed
qed

lemma parse_lines_succeeds:
  "list_all (\<lambda>r. case r of Some obj \<Rightarrow> is_dict obj | None \<Rightarrow> False) (records L lines) \<Longrightarrow>
   \<exists>r. parse_lines L lines acc = Inr r"
proof (induction lines arbitrary: acc)
  case Nil
  show ?case by (cases acc) auto
next
  case (Cons l ls)
  obtain md evs msgs where acc: "acc = (md, evs, msgs)" by (cases acc) auto
  show ?case
  proof (cases "strip l = []")
    case True
    with Cons.prems have "list_all (\<lambda>r. case r of Some obj \<Rightarrow> is_dict obj | None \<Rightarrow> False) (records L ls)"
      by (simp add: records_def)
    from Cons.IH [OF this] True show ?thesis by (simp add: acc)
  next
    case False
    with Cons.prems obtain obj where obj: "loads L (strip l) = Some obj" "is_dict obj"
      and rest: "list_all (\<lambda>r. case r of Some obj \<Rightarrow> is_dict obj | None \<Rightarrow> False) (records L ls)"
      by (auto simp: records_def split: option.splits)
    from obj(2) obtain kvs where "obj = JObj kvs" by (cases obj) simp_all
    then obtain t where t: "py_get obj ''type'' JNull = Inr t" by simp
    from Cons.IH [OF rest] show ?thesis
      using False obj(1) t by (simp add: acc Let_def)
  qed
qed

text \<open>A loop whose body extends the texts of a turn and leaves the other keys alone.\<close>

lemma for_each_texts:
  assumes step: "\<And>t item t'. f t item = Inr t' \<Longrightarrow> texts t' = texts t @ g item \<and> P t' = P t"
  shows "for_each f items t = Inr t' \<Longrightarrow> texts t' = texts t @ concat (map g items) \<and> P t' = P t"
proof (induction items arbitrary: t)
  case Nil
  then show ?case by simp
next
  case (Cons item items)
  from Cons.prems obtain t1 where t1: "f t item = Inr t1" "for_each f items t1 = Inr t'"
    by (auto simp: bnd_eq_Inr)
  from step [OF t1(1)] Cons.IH [OF t1(2)] show ?case by simp
qed

lemma py_get_dict: "is_dict v \<Longrightarrow> \<exists>x. py_get v k d = Inr x"
  by (cases v) simp_all


lemma content_item_texts:
  "content_item t item = Inr t' \<Longrightarrow> texts t' = texts t @ generic_item_texts item \<and> frame t' = frame t"
  by (cases item)
     (auto simp: content_item_def generic_item_texts_def frame_def bnd_eq_Inr
           split: if_splits json.splits option.splits)

lemma result_item_texts:
  "result_item t item = Inr t' \<Longrightarrow> texts t' = texts t @ result_item_texts item \<and> frame t' = frame t"
  by (cases item)
     (auto simp: result_item_def result_item_texts_def frame_def bnd_eq_Inr
           split: if_splits json.splits option.splits)

lemma content_fields_texts:
  assumes "content_fields content t = Inr t'"
  shows "texts t' = texts t @ generic_texts content \<and> frame t' = frame t"
proof (cases content)
  case (JArr items)
  with assms have "for_each content_item items t = Inr t'" by (simp add: content_fields_def)
  from for_each_texts [where f = content_item and g = generic_item_texts and P = frame, OF content_item_texts this]
  show ?thesis by (simp add: JArr generic_texts_def)
qed (use assms in \<open>auto simp: content_fields_def generic_texts_def frame_def\<close>)


lemma usage_fields_props:
  assumes "usage_fields msg t = Inr t'"
  shows "role t' = role t \<and> texts t' = texts t \<and> subagent_details t' = subagent_details t
         \<and> (usage t' = usage t \<or> (role t = JStr ''assistant'' \<and> has_usage t'))"
  using assms
  by (auto simp: usage_fields_def has_usage_def bnd_eq_Inr split: if_splits)

lemma usage_fields_succeeds: "is_dict msg \<Longrightarrow> \<exists>t'. usage_fields msg t = Inr t'"
  by (cases msg) (simp_all add: usage_fields_def)

lemma tool_result_fields_props:
  assumes "tool_result_fields msg t = Inr t'"
  shows "role t' = role t \<and> usage t' = usage t
         \<and> (role t \<noteq> JStr ''toolResult'' \<longrightarrow> t' = t)
         \<and> (role t = JStr ''toolResult'' \<longrightarrow>
               (\<exists>content. py_get msg ''content'' (JStr []) = Inr content
                  \<and> texts t' = result_texts content))"
proof (cases "role t = JStr ''toolResult''")
  case False
  with assms show ?thesis by (simp add: tool_result_fields_def)
next
  case True
  with assms obtain i n content t2 sd where
    c: "py_get msg ''content'' (JStr []) = Inr content"
    and t2: "(case content of
               JArr items \<Rightarrow> for_each result_item items (t\<lparr>tool_call_id := Some i, tool_name := Some n, texts := []\<rparr>)
             | JStr s \<Rightarrow> Inr (if strip s \<noteq> []
                              then (t\<lparr>tool_call_id := Some i, tool_name := Some n, texts := []\<rparr>)
                                   \<lparr>texts := texts (t\<lparr>tool_call_id := Some i, tool_name := Some n, texts := []\<rparr>) @ [s]\<rparr>
                              else t\<lparr>tool_call_id := Some i, tool_name := Some n, texts := []\<rparr>)
             | _ \<Rightarrow> Inr (t\<lparr>tool_call_id := Some i, tool_name := Some n, texts := []\<rparr>)) = Inr t2"
    and t': "t' = (case sd of Some details \<Rightarrow> t2\<lparr>subagent_details := Some details\<rparr> | None \<Rightarrow> t2)"
    by (auto simp: tool_result_fields_def bnd_eq_Inr Let_def)
  let ?t1 = "t\<lparr>tool_call_id := Some i, tool_name := Some n, texts := []\<rparr>"
  have "texts t2 = result_texts content \<and> role t2 = role t \<and> usage t2 = usage t"
  proof (cases content)
    case (JArr items)
    with t2 have "for_each result_item items ?t1 = Inr t2" by simp
    from for_each_texts [where f = result_item and g = result_item_texts and P = frame,
        OF result_item_texts this]
    show ?thesis by (simp add: JArr result_texts_def frame_def)
  qed (use t2 in \<open>auto simp: result_texts_def\<close>)
  with c t' True show ?thesis by (auto split: option.splits)
qed

lemma extract_turn_props:
  assumes "extract_turn entry = Inr t"
  shows "\<exists>msg content.
           py_get entry ''message'' (JObj []) = Inr msg
         \<and> py_get msg ''role'' (JStr []) = Inr (role t)
         \<and> py_get msg ''content'' (JStr []) = Inr content
         \<and> texts t = (if role t = JStr ''toolResult'' then result_texts content
                       else generic_texts content)
         \<and> (usage t \<noteq> None \<longrightarrow> role t = JStr ''assistant'' \<and> has_usage t)"
proof -
  from assms obtain msg r content ts err t1 t2 where
    m: "py_get entry ''message'' (JObj []) = Inr msg"
    and r: "py_get msg ''role'' (JStr []) = Inr r"
    and c: "py_get msg ''content'' (JStr []) = Inr content"
    and t1: "usage_fields msg (new_turn r ts err) = Inr t1"
    and t2: "content_fields content t1 = Inr t2"
    and t: "tool_result_fields msg t2 = Inr t"
    unfolding extract_turn_def bnd_eq_Inr by blast
  note p1 = usage_fields_props [OF t1]
  note p2 = content_fields_texts [OF t2]
  note p3 = tool_result_fields_props [OF t]
  have role: "role t = r" using p1 p2 p3 by (simp add: frame_def new_turn_def)
  have us: "usage t \<noteq> None \<longrightarrow> role t = JStr ''assistant'' \<and> has_usage t"
    using p1 p2 p3 role by (auto simp: frame_def new_turn_def has_usage_def)
  have tx: "texts t = (if role t = JStr ''toolResult'' then result_texts content
                       else generic_texts content)"
  proof (cases "role t = JStr ''toolResult''")
    case True
    with p3 c show ?thesis by auto
  next
    case False
    with p3 have "t = t2" by simp
    with p1 p2 False show ?thesis by (simp add: new_turn_def)
  qed
  from m r c role us tx show ?thesis by blast
qed

lemma content_item_succeeds:
  assumes "wf_item item"
  shows "\<exists>t'. content_item t item = Inr t'"
proof (cases "is_dict item \<and> py_get item ''type'' (JStr []) = Inr (JStr ''text'')")
  case True
  with assms obtain s where "py_get item ''text'' (JStr []) = Inr (JStr s)"
    by (auto simp: wf_item_def split: sum.splits json.splits)
  with True show ?thesis by (simp add: content_item_def)
next
  case False
  then show ?thesis by (cases item) (auto simp: content_item_def)
qed

lemma get_type_text:
  "is_dict item \<Longrightarrow>
   py_get item ''type'' JNull = Inr (JStr ''text'') \<longleftrightarrow> py_get item ''type'' (JStr []) = Inr (JStr ''text'')"
  by (cases item) (auto split: option.splits)

lemma result_item_succeeds:
  assumes "wf_item item"
  shows "\<exists>t'. result_item t item = Inr t'"
proof (cases "is_dict item \<and> py_get item ''type'' JNull = Inr (JStr ''text'')")
  case True
  with assms obtain s where "py_get item ''text'' (JStr []) = Inr (JStr s)"
    by (auto simp: wf_item_def get_type_text split: sum.splits json.splits)
  with True show ?thesis by (simp add: result_item_def)
next
  case False
  then show ?thesis by (cases item) (auto simp: result_item_def)
qed

lemma extract_subagent_details_succeeds: "is_dict msg \<Longrightarrow> \<exists>sd. extract_subagent_details msg = Inr sd"
  by (cases msg) (simp_all add: extract_subagent_details_def)

lemma content_fields_succeeds:
  assumes "case content of JArr items \<Rightarrow> list_all wf_item items | _ \<Rightarrow> True"
  shows "\<exists>t'. content_fields content t = Inr t'"
proof (cases content)
  case (JArr items)
  with assms have "\<And>x s. x \<in> set items \<Longrightarrow> \<exists>s'. content_item s x = Inr s'"
    by (auto simp: list_all_iff content_item_succeeds)
  from for_each_succeeds [where f = content_item, OF this] show ?thesis
    by (simp add: content_fields_def JArr)
qed (simp_all add: content_fields_def)

lemma tool_result_fields_succeeds:
  assumes "is_dict msg"
    and "case py_get msg ''content'' (JStr []) of Inr (JArr items) \<Rightarrow> list_all wf_item items | _ \<Rightarrow> True"
  shows "\<exists>t'. tool_result_fields msg t = Inr t'"
proof -
  from assms(1) obtain kvs where msg: "msg = JObj kvs" by (cases msg) simp_all
  obtain content where c: "py_get msg ''content'' (JStr []) = Inr content" by (simp add: msg)
  obtain sd where sd: "extract_subagent_details msg = Inr sd"
    using extract_subagent_details_succeeds [OF assms(1)] by blast
  have "\<exists>t2. (case content of
               JArr items \<Rightarrow> for_each result_item items t1
             | JStr s \<Rightarrow> Inr (if strip s \<noteq> [] then t1\<lparr>texts := texts t1 @ [s]\<rparr> else t1)
             | _ \<Rightarrow> Inr t1) = Inr t2" for t1
  proof (cases content)
    case (JArr items)
    with assms(2) c have "\<And>x s. x \<in> set items \<Longrightarrow> \<exists>s'. result_item s x = Inr s'"
      by (auto simp: list_all_iff result_item_succeeds)
    from for_each_succeeds [where f = result_item, OF this] show ?thesis by (simp add: JArr)
  qed simp_all
  then show ?thesis
    using c sd by (auto simp: tool_result_fields_def msg Let_def bnd_eq_Inr)
qed

lemma extract_turn_succeeds:
  assumes "is_dict entry" "wf_message entry"
  shows "\<exists>t. extract_turn entry = Inr t"
proof -
  from assms(1) obtain ekvs where entry: "entry = JObj ekvs" by (cases entry) simp_all
  from assms(2) obtain kvs where m: "py_get entry ''message'' (JObj []) = Inr (JObj kvs)"
    and wf: "case py_get (JObj kvs) ''content'' (JStr []) of
               Inr (JArr items) \<Rightarrow> list_all wf_item items | _ \<Rightarrow> True"
    by (auto simp: wf_message_def split: sum.splits json.splits)
  obtain content where c: "py_get (JObj kvs) ''content'' (JStr []) = Inr content" by simp
  obtain r where r: "py_get (JObj kvs) ''role'' (JStr []) = Inr r" by simp
  obtain its where its: "py_get (JObj kvs) ''timestamp'' (JStr []) = Inr its" by simp
  obtain ts where ts: "py_get entry ''timestamp'' its = Inr ts" by (simp add: entry)
  obtain err where err: "py_get (JObj kvs) ''isError'' (JBool False) = Inr err" by simp
  obtain t1 where t1: "usage_fields (JObj kvs) (new_turn r ts err) = Inr t1"
    using usage_fields_succeeds [of "JObj kvs"] by auto
  have "case content of JArr items \<Rightarrow> list_all wf_item items | _ \<Rightarrow> True"
    using wf c by (auto split: json.splits)
  from content_fields_succeeds [OF this] obtain t2 where t2: "content_fields content t1 = Inr t2"
    by blast
  obtain t where t: "tool_result_fields (JObj kvs) t2 = Inr t"
    using tool_result_fields_succeeds [of "JObj kvs", OF _ wf] by auto
  show ?thesis
    unfolding extract_turn_def bnd_eq_Inr using m r c its ts err t1 t2 t by blast
qed

lemma extract_turns_iff:
  "extract_turns messages = Inr turns \<longleftrightarrow> list_all2 (\<lambda>m t. extract_turn m = Inr t) messages turns"
  by (simp add: extract_turns_def for_each_collect)

lemma extract_turns_succeeds:
  assumes "\<And>m. m \<in> set messages \<Longrightarrow> is_dict m \<and> wf_message m"
  shows "\<exists>turns. extract_turns messages = Inr turns"
  unfolding extract_turns_def
proof (rule for_each_succeeds)
  fix x :: json and s :: "turn list"
  assume "x \<in> set messages"
  with assms extract_turn_succeeds [of x] obtain t where "extract_turn x = Inr t" by blast
  then show "\<exists>s'. bnd (extract_turn x) (\<lambda>t. Inr (s @ [t])) = Inr s'" by simp
qed

lemma parse_session_messages:
  assumes "parse_session L lines = Inr (metadata, events, messages)"
  shows "\<exists>objs. records L lines = map Some objs \<and> list_all is_dict objs
           \<and> messages = filter is_message_record objs"
  using parse_lines_messages [of L lines "JObj []" "[]" "[]" metadata events messages] assms
  by (simp add: parse_session_def)

text \<open>
  Claim C1. On a well-formed session file the parse and the normalisation both return.
  Whenever they return, the raw messages are exactly the message-typed records of the
  file in file order (records of another type, or of none, are dropped), there are as
  many turns as message-typed records, and the turn at each position is the turn of the
  message record at that position.
\<close>

theorem turns_follow_message_records:
  "(well_formed L lines \<longrightarrow>
      (\<exists>metadata events messages turns.
          parse_session L lines = Inr (metadata, events, messages)
        \<and> extract_turns messages = Inr turns))
   \<and> (parse_session L lines = Inr (metadata, events, messages)
        \<and> extract_turns messages = Inr turns \<longrightarrow>
      (\<exists>objs. records L lines = map Some objs
         \<and> messages = filter is_message_record objs
         \<and> length turns = length (filter is_message_record objs)
         \<and> list_all2 (\<lambda>obj t. extract_turn obj = Inr t) (filter is_message_record objs) turns))"
proof (intro conjI impI)
  assume wf: "well_formed L lines"
  then have "list_all (\<lambda>r. case r of Some obj \<Rightarrow> is_dict obj | None \<Rightarrow> False) (records L lines)"
    by (auto simp: well_formed_def wf_record_def list_all_iff split: option.splits)
  from parse_lines_succeeds [OF this, of "(JObj [], [], [])"]
  obtain md evs msgs where p: "parse_session L lines = Inr (md, evs, msgs)"
    by (auto simp: parse_session_def)
  from parse_session_messages [OF p] obtain objs where
    objs: "records L lines = map Some objs" "msgs = filter is_message_record objs"
    by blast
  have "is_dict m \<and> wf_message m" if "m \<in> set msgs" for m
  proof -
    from that objs have "Some m \<in> set (records L lines)" "is_message_record m" by auto
    with wf show ?thesis
      by (auto simp: well_formed_def list_all_iff wf_record_def)
  qed
  from extract_turns_succeeds [OF this] obtain turns where "extract_turns msgs = Inr turns"
    by blast
  with p show "\<exists>metadata events messages turns.
          parse_session L lines = Inr (metadata, events, messages)
        \<and> extract_turns messages = Inr turns" by blast
next
  assume a: "parse_session L lines = Inr (metadata, events, messages)
        \<and> extract_turns messages = Inr turns"
  from parse_session_messages [of L lines metadata events messages] a obtain objs where
    objs: "records L lines = map Some objs" "messages = filter is_message_record objs"
    by blast
  from a have l: "list_all2 (\<lambda>m t. extract_turn m = Inr t) messages turns"
    by (simp add: extract_turns_iff)
  then have "length turns = length messages" by (simp add: list_all2_lengthD)
  with objs l show "\<exists>objs. records L lines = map Some objs
         \<and> messages = filter is_message_record objs
         \<and> length turns = length (filter is_message_record objs)
         \<and> list_all2 (\<lambda>obj t. extract_turn obj = Inr t) (filter is_message_record objs) turns"
    by auto
qed

lemma strip_example [simp]:
  "strip ''SESSION'' = ''SESSION''" "strip [] = []" "strip ''USER'' = ''USER''"
  "strip '' ASSISTANT '' = ''ASSISTANT''" "strip ''hello'' = ''hello''"
  by (simp_all add: strip_def isspace_def)

lemma example_records:
  "records example_lib example_file = [Some session_record, Some user_record, Some assistant_record]"
  by (simp add: records_def example_file_def example_lib_def)

lemma example_parse:
  "parse_session example_lib example_file = Inr (session_record, [], [user_record, assistant_record])"
  by (simp add: parse_session_def example_file_def example_lib_def Let_def
        session_record_def user_record_def assistant_record_def)

lemma example_well_formed: "well_formed example_lib example_file"
  by (simp add: well_formed_def example_records wf_record_def is_message_record_def wf_message_def
        wf_item_def session_record_def user_record_def assistant_record_def)

lemma strip_note [simp]: "strip ''note'' = ''note''" "strip ''hi'' = ''hi''"
  by (simp_all add: strip_def isspace_def)

lemma extract_user: "extract_turn user_record = Inr user_turn"
  by (simp add: extract_turn_def user_record_def user_turn_def new_turn_def usage_fields_def
        content_fields_def tool_result_fields_def)

lemma extract_assistant: "extract_turn assistant_record = Inr assistant_turn"
  by (simp add: extract_turn_def assistant_record_def assistant_turn_def new_turn_def
        usage_fields_def content_fields_def content_item_def tool_result_fields_def)



theorem turns_follow_message_records_witness:
  "well_formed example_lib example_file
   \<and> parse_session example_lib example_file = Inr (session_record, [], [user_record, assistant_record])
   \<and> extract_turns [user_record, assistant_record] = Inr [user_turn, assistant_turn]
   \<and> (\<exists>objs. records example_lib example_file = map Some objs
         \<and> [user_record, assistant_record] = filter is_message_record objs
         \<and> length [user_turn, assistant_turn] = length (filter is_message_record objs)
         \<and> list_all2 (\<lambda>obj t. extract_turn obj = Inr t) (filter is_message_record objs)
              [user_turn, assistant_turn])"
proof -
  have e: "extract_turns [user_record, assistant_record] = Inr [user_turn, assistant_turn]"
    by (simp add: extract_turns_iff extract_user extract_assistant)
  from turns_follow_message_records [of example_lib example_file session_record "[]"
      "[user_record, assistant_record]" "[user_turn, assistant_turn]"]
    example_well_formed example_parse e
  show ?thesis by blast
qed




lemma parse_lines_invalid:
  assumes "l \<in> set lines" "strip l \<noteq> []" "loads L (strip l) = None"
  shows "\<exists>e. parse_lines L lines acc = Inl e"
  using assms(1)
proof (induction lines arbitrary: acc)
  case Nil
  then show ?case by simp
next
  case (Cons x xs)
  obtain md evs msgs where acc: "acc = (md, evs, msgs)" by (cases acc) auto
  show ?case
  proof (cases "x = l")
    case True
    with assms(2,3) show ?thesis by (simp add: acc Let_def)
  next
    case False
    with Cons.prems have "l \<in> set xs" by simp
    from Cons.IH [OF this] have "\<exists>e. parse_lines L xs acc' = Inl e" for acc' by blast
    then show ?thesis
      by (auto simp: acc Let_def split: option.splits sum.splits)
  qed
qed

text \<open>
  Claim C9. If a line of the session file is not blank and is not valid JSON, the
  invocation ends with an exception raised by the parse pass, whatever the mode and the
  other arguments, and nothing has been printed on the standard output: no renderer
  runs, and no turn of the lines read before the bad one is reported.
\<close>

theorem invalid_json_aborts_before_output:
  assumes "l \<in> set lines" and "strip l \<noteq> []" and "loads L (strip l) = None"
  shows "\<exists>e. main L a (Some lines) = (Raised e, [])"
proof -
  from parse_lines_invalid [OF assms, of "(JObj [], [], [])"] obtain e where "parse_session L lines = Inl e"
    by (auto simp: parse_session_def)
  then show ?thesis by (simp add: main_def)
qed

theorem invalid_json_aborts_before_output_witness:
  "''{bad'' \<in> set [''USER'', ''{bad'', ''ASSISTANT''] \<and> strip ''{bad'' \<noteq> []
   \<and> loads example_lib (strip ''{bad'') = None
   \<and> (\<exists>e. main example_lib default_args (Some [''USER'', ''{bad'', ''ASSISTANT'']) = (Raised e, []))"
  using invalid_json_aborts_before_output
    [of "''{bad''" "[''USER'', ''{bad'', ''ASSISTANT'']" example_lib default_args]
  by (simp add: strip_def isspace_def example_lib_def)

subsection \<open>The windowed loops\<close>

lemma emit_all_frame:
  "emit_all steps s = (f, s') \<Longrightarrow> s' = s\<lparr>out := out s'\<rparr> \<and> f \<noteq> Break"
proof (induction steps arbitrary: s)
  case Nil
  then show ?case by auto
next
  case (Cons step steps)
  show ?case
  proof (cases step)
    case (Inl e)
    with Cons.prems show ?thesis by auto
  next
    case (Inr ls)
    with Cons.prems have "emit_all steps (s\<lparr>out := out s @ ls\<rparr>) = (f, s')" by simp
    from Cons.IH [OF this] have "s' = s\<lparr>out := out s @ ls\<rparr>\<lparr>out := out s'\<rparr>" "f \<noteq> Break"
      by blast+
    then show ?thesis by simp
  qed
qed

lemma emit_all_snd: "snd (emit_all steps s) = s\<lparr>out := out (snd (emit_all steps s))\<rparr>"
  using emit_all_frame [of steps s "fst (emit_all steps s)" "snd (emit_all steps s)"] by simp

lemma emit_all_turn_num [simp]: "turn_num (snd (emit_all steps s)) = turn_num s"
  by (subst emit_all_snd) simp

lemma emit_all_total_cost [simp]: "total_cost (snd (emit_all steps s)) = total_cost s"
  by (subst emit_all_snd) simp

lemma emit_all_not_Break [simp]: "fst (emit_all steps s) \<noteq> Break"
  using emit_all_frame [of steps s "fst (emit_all steps s)" "snd (emit_all steps s)"] by simp

lemma in_window_unwindowed [simp]: "in_window (unwindowed a) n"
  by (simp add: in_window_def unwindowed_def)

lemma windowed_unwindowed [simp]: "windowed (unwindowed a) s X = X"
  by (simp add: windowed_def window_def unwindowed_def)

lemma max_content_unwindowed [simp]: "max_content (unwindowed a) = max_content a"
  by (simp add: unwindowed_def)

lemma text_lines_unwindowed [simp]: "text_lines (unwindowed a) t = text_lines a t"
  by (simp add: text_lines_def)

lemma next_user_simps [simp]:
  "turn_num (next_user s) = turn_num s + 1"
  "out (next_user s) = out s" "total_cost (next_user s) = total_cost s"
  by (simp_all add: next_user_def)

lemma obeys_windowed:
  assumes "turn_num s1 = n" "out s1 = out s" "total_cost s1 = total_cost s"
    and "turn_num (snd X) = n" "fst X \<noteq> Break"
  shows "obeys a s n (windowed a s1 X) X"
proof -
  consider (skip) "window a n = Skip" | (stop) "window a n = Stop" | (shown) "window a n = Show"
    by (cases "window a n") auto
  then show ?thesis
  proof cases
    case skip
    then have "\<not> in_window a n" by (auto simp: window_def in_window_def split: if_splits)
    with skip assms show ?thesis by (simp add: obeys_def windowed_def)
  next
    case stop
    then have "\<not> in_window a n" "limit a \<noteq> 0" "n > offset a + limit a"
      by (auto simp: window_def in_window_def split: if_splits)
    with stop assms show ?thesis by (simp add: obeys_def windowed_def)
  next
    case shown
    then have "in_window a n" by (auto simp: window_def in_window_def split: if_splits)
    with shown assms show ?thesis by (simp add: obeys_def windowed_def)
  qed
qed

lemma obeys_pass:
  assumes "turn_num s1 = n" "out s1 = out s" "total_cost s1 = total_cost s"
  shows "obeys a s n (Next, s1) (Next, s1)"
  using assms by (simp add: obeys_def)






lemma full_assistant_unwindowed [simp]: "full_assistant L (unwindowed a) t = full_assistant L a t"
  by (simp add: full_assistant_def)

lemma full_result_unwindowed [simp]: "full_result (unwindowed a) t = full_result a t"
  by (simp add: full_result_def split: option.splits)


lemma tools_call_unwindowed [simp]: "tools_call L (unwindowed a) t = tools_call L a t"
  by (rule ext, rule ext) (simp add: tools_call_def)

lemma tools_result_unwindowed [simp]: "tools_result (unwindowed a) t = tools_result a t"
  by (simp add: tools_result_def split: option.splits)

lemma fold_tools_call_turn_num [simp]:
  "turn_num (fold (tools_call L a t) tcs s) = turn_num s"
  by (induction tcs arbitrary: s) (simp_all add: tools_call_def)


lemma costs_row_frame:
  "turn_num (snd (costs_row s t)) = turn_num s \<and> fst (costs_row s t) \<noteq> Break"
  by (simp add: costs_row_def Let_def split: sum.splits prod.splits)

lemma costs_respects: "window_respecting costs_body"
  unfolding window_respecting_def
proof (intro allI)
  fix a :: args and s :: rstate and t :: turn
  define s1 where "s1 = (if role t = JStr ''user'' then next_user s else s)"
  define s2 where "s2 = s1\<lparr>assistant_num := assistant_num s1 + 1\<rparr>"
  have s1: "turn_num s1 = turn_number (turn_num s) t" "out s1 = out s" "total_cost s1 = total_cost s"
    by (simp_all add: s1_def turn_number_def is_user_def)
  then have s2: "turn_num s2 = turn_number (turn_num s) t" "out s2 = out s" "total_cost s2 = total_cost s"
    by (simp_all add: s2_def)
  have b: "costs_body a' s t =
      (if role t \<noteq> JStr ''assistant'' \<or> \<not> has_usage t then (Next, s1)
       else windowed a' s2 (costs_row s2 t))" for a'
    by (simp add: costs_body_def s1_def s2_def Let_def)
  show "obeys a s (turn_number (turn_num s) t) (costs_body a s t)
               (costs_body (unwindowed a) s t)"
    unfolding b using s1 s2 costs_row_frame [of s2 t] by (simp add: obeys_windowed obeys_pass)
qed

lemma users_simps [simp]:
  "users [] = 0" "users (t # ts) = (if is_user t then 1 else 0) + users ts"
  "users (xs @ ys) = users xs + users ys"
  by (simp_all add: users_def)


lemma turn_number_users: "turn_number n t = n + users [t]"
  by (simp add: turn_number_def)


lemma body_counter:
  "window_respecting B \<Longrightarrow> turn_num (snd (B a s t)) = turn_number (turn_num s) t"
  by (simp add: window_respecting_def obeys_def)

lemma body_break:
  "window_respecting B \<Longrightarrow> B a s t = (Break, s') \<Longrightarrow>
   limit a \<noteq> 0 \<and> turn_number (turn_num s) t > offset a + limit a"
  unfolding window_respecting_def obeys_def by (metis fst_conv)







lemma example_users [simp]:
  "is_user user_turn" "\<not> is_user assistant_turn" "\<not> is_user result_turn" "\<not> is_user system_turn"
  by (simp_all add: is_user_def user_turn_def assistant_turn_def result_turn_def system_turn_def
        new_turn_def)






subsection \<open>Session cost\<close>

lemma py_add_split: "py_add c v = Inr c' \<Longrightarrow> \<exists>q. py_add 0 v = Inr q \<and> c' = c + q"
  by (cases v) auto

lemma cost_step:
  assumes "bnd (py_get u ''cost'' (JObj [])) (\<lambda>cost.
           bnd (py_get cost ''total'' (JNum 0)) (\<lambda>tot.
           bnd (py_add c tot) (K tot))) = Inr r"
    and "\<And>tot x. K tot x = Inr r \<Longrightarrow> P x"
    and "u = get_or (usage t) (JObj [])"
  shows "\<exists>c'. P c' \<and> c' = c + cost_of t"
proof -
  from assms(1) obtain cost tot c' where
    g: "py_get u ''cost'' (JObj []) = Inr cost" "py_get cost ''total'' (JNum 0) = Inr tot"
       "py_add c tot = Inr c'" "K tot c' = Inr r"
    unfolding bnd_eq_Inr by blast
  from py_add_split [OF g(3)] obtain q where q: "py_add 0 tot = Inr q" "c' = c + q" by blast
  from g(1,2) q(1) assms(3) have "cost_of t = q" by (simp add: cost_of_def turn_cost_def)
  with q(2) assms(2) [OF g(4)] show ?thesis by blast
qed

lemma overview_totals_step_cost:
  assumes "overview_totals_step (c, i, ot) t = Inr (c', i', ot')"
  shows "c' = c + cost_of t"
proof -
  let ?K = "\<lambda>(tot :: json) c1.
      bnd (py_get (get_or (usage t) (JObj [])) ''input'' (JNum 0)) (\<lambda>i0.
      bnd (py_add i i0) (\<lambda>i1.
      bnd (py_get (get_or (usage t) (JObj [])) ''output'' (JNum 0)) (\<lambda>o0.
      bnd (py_add ot o0) (\<lambda>o1. Inr (c1, i1, o1)))))"
  from assms have "bnd (py_get (get_or (usage t) (JObj [])) ''cost'' (JObj [])) (\<lambda>cost.
           bnd (py_get cost ''total'' (JNum 0)) (\<lambda>tot.
           bnd (py_add c tot) (?K tot))) = Inr (c', i', ot')"
    by (simp add: overview_totals_step_def Let_def)
  from cost_step [OF this, where P = "\<lambda>x. x = c'" and t = t]
  show ?thesis by (auto simp: bnd_eq_Inr)
qed

lemma overview_totals_loop_cost:
  "for_each overview_totals_step ts (c, i, ot) = Inr (c', i', ot') \<Longrightarrow>
   c' = c + sum_list (map cost_of ts)"
proof (induction ts arbitrary: c i ot)
  case Nil
  then show ?case by simp
next
  case (Cons t ts)
  from Cons.prems obtain c1 i1 o1 where
    s: "overview_totals_step (c, i, ot) t = Inr (c1, i1, o1)"
    and r: "for_each overview_totals_step ts (c1, i1, o1) = Inr (c', i', ot')"
    by (auto simp: bnd_eq_Inr)
  from overview_totals_step_cost [OF s] Cons.IH [OF r] show ?case by simp
qed

lemma cost_of_no_usage: "usage t = None \<Longrightarrow> cost_of t = 0"
  by (simp add: cost_of_def turn_cost_def get_or_def)

lemma sum_cost_session:
  "(\<And>t. t \<in> set ts \<Longrightarrow> usage t \<noteq> None \<Longrightarrow> carries_usage t) \<Longrightarrow>
   sum_list (map cost_of ts) = session_cost ts"
proof (induction ts)
  case Nil
  show ?case by (simp add: session_cost_def)
next
  case (Cons t ts)
  then have "sum_list (map cost_of ts) = session_cost ts" by simp
  moreover have "cost_of t = (if carries_usage t then cost_of t else 0)"
    using Cons.prems [of t] cost_of_no_usage [of t] by auto
  ultimately show ?case by (simp add: session_cost_def)
qed

lemma extract_turns_usage:
  assumes "extract_turns messages = Inr turns" "t \<in> set turns" "usage t \<noteq> None"
  shows "carries_usage t"
proof -
  from assms(1) have "list_all2 (\<lambda>m t. extract_turn m = Inr t) messages turns"
    by (simp add: extract_turns_iff)
  with assms(2) obtain m where "extract_turn m = Inr t"
    by (auto simp: list_all2_conv_all_nth in_set_conv_nth)
  from extract_turn_props [OF this] assms(3) show ?thesis by (auto simp: carries_usage_def)
qed

lemma numbered_ge: "(m, t) \<in> set (numbered n ts) \<Longrightarrow> n \<le> m"
proof (induction ts arbitrary: n)
  case Nil
  then show ?case by simp
next
  case (Cons x xs)
  have "n \<le> turn_number n x" by (simp add: turn_number_def)
  with Cons show ?case by fastforce
qed

lemma sum_list_all_zero:
  "(\<And>x. x \<in> set xs \<Longrightarrow> f x = (0 :: rat)) \<Longrightarrow> sum_list (map f xs) = 0"
  by (induction xs) simp_all

lemma window_cost_beyond:
  assumes "limit a \<noteq> 0" "n > offset a + limit a"
  shows "window_cost_from a n ts = 0"
proof -
  have "\<not> in_window a (fst nt)" if "nt \<in> set (numbered n ts)" for nt
    using numbered_ge [of "fst nt" "snd nt" n ts] that assms by (auto simp: in_window_def)
  then show ?thesis
    unfolding window_cost_from_def by (intro sum_list_all_zero) auto
qed

lemma window_cost_Cons:
  "window_cost_from a n (t # ts) =
     (if carries_usage t \<and> in_window a (turn_number n t) then cost_of t else 0)
     + window_cost_from a (turn_number n t) ts"
  by (simp add: window_cost_from_def)

lemma window_cost_unwindowed:
  "offset a = 0 \<Longrightarrow> limit a = 0 \<Longrightarrow> window_cost_from a n ts = session_cost ts"
proof (induction ts arbitrary: n)
  case Nil
  show ?case by (simp add: window_cost_from_def session_cost_def)
next
  case (Cons t ts)
  from Cons.IH [OF Cons.prems] have "window_cost_from a (turn_number n t) ts = session_cost ts" .
  moreover have "in_window a (turn_number n t)" using Cons.prems by (simp add: in_window_def)
  ultimately show ?case by (simp add: window_cost_Cons session_cost_def)
qed


lemma costs_row_cost:
  assumes "costs_row s t = (f, s')" and "\<And>e. f \<noteq> Raise e"
  shows "total_cost s' = total_cost s + cost_of t \<and> turn_num s' = turn_num s"
proof -
  let ?u = "get_or (usage t) (JObj [])"
  let ?sums = "bnd (py_get ?u ''cost'' (JObj [])) (\<lambda>cost.
           bnd (py_get cost ''total'' (JNum 0)) (\<lambda>tot.
           bnd (py_add (total_cost s) tot) (\<lambda>cost_sum. Inr (tot, cost_sum))))"
  show ?thesis
  proof (cases ?sums)
    case (Inl e)
    with assms(1) have "f = Raise e" by (simp add: costs_row_def Let_def)
    with assms(2) show ?thesis by blast
  next
    case (Inr r)
    obtain tot cost_sum where r: "r = (tot, cost_sum)" by (cases r)
    from cost_step [OF Inr, where P = "\<lambda>x. x = cost_sum" and t = t] r
    have c: "cost_sum = total_cost s + cost_of t" by auto
    from assms(1) Inr r obtain steps where "emit_all steps (s\<lparr>total_cost := cost_sum\<rparr>) = (f, s')"
      by (simp add: costs_row_def Let_def)
    then have "total_cost s' = cost_sum" "turn_num s' = turn_num s"
      using emit_all_total_cost [of steps "s\<lparr>total_cost := cost_sum\<rparr>"]
        emit_all_turn_num [of steps "s\<lparr>total_cost := cost_sum\<rparr>"] by simp_all
    with c show ?thesis by simp
  qed
qed

lemma costs_body_cost:
  assumes "costs_body a s t = (f, s')" and "\<And>e. f \<noteq> Raise e"
  shows "total_cost s' = total_cost s
           + (if carries_usage t \<and> in_window a (turn_number (turn_num s) t) then cost_of t else 0)"
proof -
  define s1 where "s1 = (if role t = JStr ''user'' then next_user s else s)"
  define s2 where "s2 = s1\<lparr>assistant_num := assistant_num s1 + 1\<rparr>"
  have s2: "turn_num s2 = turn_number (turn_num s) t" "total_cost s2 = total_cost s"
    "total_cost s1 = total_cost s"
    by (simp_all add: s1_def s2_def turn_number_def is_user_def)
  have b: "costs_body a' s t =
      (if \<not> carries_usage t then (Next, s1) else windowed a' s2 (costs_row s2 t))" for a'
    by (simp add: costs_body_def s1_def s2_def Let_def carries_usage_def)
  from costs_respects have o: "obeys a s (turn_number (turn_num s) t) (costs_body a s t)
        (costs_body (unwindowed a) s t)"
    by (simp add: window_respecting_def)
  show ?thesis
  proof (cases "carries_usage t \<and> in_window a (turn_number (turn_num s) t)")
    case True
    with o have "costs_body a s t = costs_body (unwindowed a) s t" by (simp add: obeys_def)
    also have "\<dots> = costs_row s2 t" using True by (simp add: b)
    finally have "costs_row s2 t = (f, s')" using assms(1) by simp
    from costs_row_cost [OF this assms(2)] s2 True show ?thesis by simp
  next
    case False
    show ?thesis
    proof (cases "carries_usage t")
      case True
      with False o assms(1) show ?thesis by (simp add: obeys_def)
    next
      case c: False
      with b [of a] assms(1) s2 show ?thesis by simp
    qed
  qed
qed

lemma costs_loop_cost:
  "loop (costs_body a) ts s = (f, s') \<Longrightarrow> (\<And>e. f \<noteq> Raise e) \<Longrightarrow>
   total_cost s' = total_cost s + window_cost_from a (turn_num s) ts"
proof (induction ts arbitrary: s)
  case Nil
  then show ?case by (simp add: window_cost_from_def)
next
  case (Cons t ts)
  obtain f1 s1 where b: "costs_body a s t = (f1, s1)" by (cases "costs_body a s t")
  from body_counter [OF costs_respects, of a s t] b
  have n: "turn_num s1 = turn_number (turn_num s) t" by simp
  show ?case
  proof (cases f1)
    case Next
    with Cons.prems(1) b have r: "loop (costs_body a) ts s1 = (f, s')" by simp
    from costs_body_cost [OF b] Next
    have "total_cost s1 = total_cost s
           + (if carries_usage t \<and> in_window a (turn_number (turn_num s) t) then cost_of t else 0)"
      by simp
    with Cons.IH [OF r Cons.prems(2)] n show ?thesis by (simp add: window_cost_Cons)
  next
    case Break
    with Cons.prems(1) b have e: "s' = s1" by simp
    from body_break [OF costs_respects, of a s t s1] b Break
    have w: "limit a \<noteq> 0" "turn_number (turn_num s) t > offset a + limit a" by simp_all
    then have o: "\<not> in_window a (turn_number (turn_num s) t)" by (auto simp: in_window_def)
    from costs_body_cost [OF b] Break o have "total_cost s1 = total_cost s" by simp
    with e o window_cost_beyond [OF w, of ts] show ?thesis by (simp add: window_cost_Cons)
  next
    case (Raise e)
    with Cons.prems(1) b have "f = Raise e" by simp
    with Cons.prems(2) show ?thesis by blast
  qed
qed

lemma loop_preserves:
  assumes "\<And>s x. P (snd (body s x)) = P s"
  shows "P (snd (loop body xs s)) = P s"
proof (induction xs arbitrary: s)
  case Nil
  show ?case by simp
next
  case (Cons x xs)
  obtain f s1 where b: "body s x = (f, s1)" by (cases "body s x")
  with assms [of s x] have "P s1 = P s" by simp
  with Cons.IH [of s1] b show ?case by (cases f) simp_all
qed

lemma costs_subagent_run_total: "total_cost (snd (costs_subagent_run s r)) = total_cost s"
  by (simp add: costs_subagent_run_def Let_def split: sum.splits prod.splits)

lemma costs_subagent_turn_total: "total_cost (snd (costs_subagent_turn s t)) = total_cost s"
  by (simp add: costs_subagent_turn_def loop_preserves [where P = total_cost, OF costs_subagent_run_total]
        split: option.splits sum.splits)

lemma print_costs_total:
  assumes "print_costs turns a = (f, s)" and "\<And>e. f \<noteq> Raise e"
  shows "total_cost s = window_cost a turns \<and> (\<exists>ls. out s = ls @ costs_totals s)"
proof -
  let ?h = "start [Line ''='' [], Line ''COST BREAKDOWN'' [], Line ''='' [],
                     Line ''# Time Model In Out Cache Cost'' [], Line ''-'' []]"
  obtain f1 s1 where l1: "loop (costs_body a) turns ?h = (f1, s1)"
    by (cases "loop (costs_body a) turns ?h")
  obtain f2 s2 where l2: "loop costs_subagent_turn turns s1 = (f2, s2)"
    by (cases "loop costs_subagent_turn turns s1")
  have n1: "\<And>e. f1 \<noteq> Raise e"
  proof
    fix e assume "f1 = Raise e"
    with assms(1) l1 have "f = Raise e" by (simp add: print_costs_def)
    with assms(2) show False by blast
  qed
  have n2: "\<And>e. f2 \<noteq> Raise e"
  proof
    fix e assume r: "f2 = Raise e"
    from n1 have "f1 = Next \<or> f1 = Break" by (cases f1) auto
    with assms(1) l1 l2 r have "f = Raise e"
      by (auto simp: print_costs_def)
    with assms(2) show False by blast
  qed
  from n1 have c1: "f1 = Next \<or> f1 = Break" by (cases f1) auto
  from n2 have c2: "f2 = Next \<or> f2 = Break" by (cases f2) auto
  from assms(1) l1 l2 c1 c2 have s: "s = s2\<lparr>out := out s2 @ costs_totals s2\<rparr>"
    by (auto simp: print_costs_def)
  from costs_loop_cost [OF l1 n1] have "total_cost s1 = window_cost a turns"
    by (simp add: window_cost_def start_def)
  moreover from loop_preserves [where P = total_cost and body = costs_subagent_turn,
      OF costs_subagent_turn_total, of turns s1] l2
  have "total_cost s2 = total_cost s1" by simp
  moreover have "costs_totals s = costs_totals s2" by (simp add: s costs_totals_def)
  ultimately show ?thesis by (auto simp: s)
qed

text \<open>
  Claim C5, as the code has it. For the turns of a parsed session, the total the
  overview adds up (printed as \<^verbatim>\<open>Session cost\<close> when positive) is the sum, over the assistant
  turns that carry usage, of the cost total of the usage. The total the costs view adds
  up (printed as \<^verbatim>\<open>SESSION\<close>, and within \<^verbatim>\<open>TOTAL\<close>) is that sum over the turns whose turn
  number is in the window only: the cost is added after the two window tests. The two
  totals are the same when the offset and the limit are both 0.
\<close>

theorem session_cost_views_agree:
  assumes "extract_turns messages = Inr turns"
  shows "(overview_totals turns = Inr ((c, i, ot), sub) \<longrightarrow> c = session_cost turns)
       \<and> (print_costs turns a = (f, s) \<and> (\<forall>e. f \<noteq> Raise e) \<longrightarrow>
             total_cost s = window_cost a turns \<and> (\<exists>ls. out s = ls @ costs_totals s))
       \<and> (offset a = 0 \<and> limit a = 0 \<longrightarrow> window_cost a turns = session_cost turns)"
proof (intro conjI impI)
  assume "overview_totals turns = Inr ((c, i, ot), sub)"
  then have "for_each overview_totals_step turns (0, 0, 0) = Inr (c, i, ot)"
    by (auto simp: overview_totals_def bnd_eq_Inr)
  from overview_totals_loop_cost [OF this] have "c = sum_list (map cost_of turns)" by simp
  also have "\<dots> = session_cost turns"
    using extract_turns_usage [OF assms] by (intro sum_cost_session) blast
  finally show "c = session_cost turns" .
next
  assume p: "print_costs turns a = (f, s) \<and> (\<forall>e. f \<noteq> Raise e)"
  then have "total_cost s = window_cost a turns \<and> (\<exists>ls. out s = ls @ costs_totals s)"
    by (intro print_costs_total) blast+
  then show "total_cost s = window_cost a turns" "\<exists>ls. out s = ls @ costs_totals s" by blast+
next
  assume "offset a = 0 \<and> limit a = 0"
  then show "window_cost a turns = session_cost turns"
    by (simp add: window_cost_def window_cost_unwindowed)
qed


lemma example_extract:
  "extract_turns [user_record, assistant_record] = Inr [user_turn, assistant_turn]"
  by (simp add: extract_turns_iff extract_user extract_assistant)

lemma example_overview_totals:
  "overview_totals [user_turn, assistant_turn] = Inr ((2, 0, 0), (0, 0))"
  by (simp add: overview_totals_def overview_totals_step_def overview_subagent_step_def
        details_of_def get_or_def user_turn_def assistant_turn_def new_turn_def)

lemma example_costs:
  "print_costs [user_turn, assistant_turn] default_args
     = (Next, (start [Line ''='' [], Line ''COST BREAKDOWN'' [], Line ''='' [],
                      Line ''# Time Model In Out Cache Cost'' [], Line ''-'' [],
                      Line ''row'' [JNum 1, JStr [], JStr [], JNum 0, JNum 0, JNum 0, JNum 2],
                      Line ''-'' [], Line ''TOTAL'' [JNum 2]])
               \<lparr>turn_num := 1, assistant_num := 1, total_cost := 2\<rparr>)"
  by (simp add: print_costs_def costs_body_def costs_row_def costs_subagent_turn_def
        costs_totals_def has_usage_def windowed_def window_def details_of_def get_or_def
        next_user_def start_def default_args_def user_turn_def assistant_turn_def new_turn_def)

lemma example_costs_offset:
  "print_costs [user_turn, assistant_turn] (default_args\<lparr>offset := 1\<rparr>)
     = (Next, (start [Line ''='' [], Line ''COST BREAKDOWN'' [], Line ''='' [],
                      Line ''# Time Model In Out Cache Cost'' [], Line ''-'' [],
                      Line ''-'' [], Line ''TOTAL'' [JNum 0]])
               \<lparr>turn_num := 1, assistant_num := 1\<rparr>)"
  by (simp add: print_costs_def costs_body_def costs_row_def costs_subagent_turn_def
        costs_totals_def has_usage_def windowed_def window_def details_of_def get_or_def
        next_user_def start_def default_args_def user_turn_def assistant_turn_def new_turn_def)

theorem session_cost_views_agree_witness:
  "extract_turns [user_record, assistant_record] = Inr [user_turn, assistant_turn]
   \<and> overview_totals [user_turn, assistant_turn] = Inr ((2, 0, 0), (0, 0))
   \<and> 2 = session_cost [user_turn, assistant_turn]
   \<and> fst (print_costs [user_turn, assistant_turn] default_args) = Next
   \<and> total_cost (snd (print_costs [user_turn, assistant_turn] default_args))
       = window_cost default_args [user_turn, assistant_turn]
   \<and> offset default_args = 0 \<and> limit default_args = 0
   \<and> window_cost default_args [user_turn, assistant_turn]
       = session_cost [user_turn, assistant_turn]"
proof -
  let ?p = "print_costs [user_turn, assistant_turn] default_args"
  have f: "fst ?p = Next" unfolding example_costs by simp
  then have n: "\<forall>e. fst ?p \<noteq> Raise e" by simp
  have p: "?p = (fst ?p, snd ?p)" by simp
  have z: "offset default_args = 0" "limit default_args = 0" by (simp_all add: default_args_def)
  from session_cost_views_agree [OF example_extract, of 2 0 0 "(0, 0)" default_args "fst ?p" "snd ?p"]
    example_extract example_overview_totals f n p z
  show ?thesis by blast
qed

text \<open>
  With an offset the two totals differ: for a user turn followed by an assistant turn
  of cost 2 and the offset 1, the overview adds up 2 and the costs view 0.
\<close>

theorem costs_total_is_windowed:
  "extract_turns [user_record, assistant_record] = Inr [user_turn, assistant_turn]
   \<and> overview_totals [user_turn, assistant_turn] = Inr ((2, 0, 0), (0, 0))
   \<and> fst (print_costs [user_turn, assistant_turn] (default_args\<lparr>offset := 1\<rparr>)) = Next
   \<and> total_cost (snd (print_costs [user_turn, assistant_turn] (default_args\<lparr>offset := 1\<rparr>))) = 0
   \<and> out (snd (print_costs [user_turn, assistant_turn] (default_args\<lparr>offset := 1\<rparr>)))
       = [Line ''='' [], Line ''COST BREAKDOWN'' [], Line ''='' [],
          Line ''# Time Model In Out Cache Cost'' [], Line ''-'' [],
          Line ''-'' [], Line ''TOTAL'' [JNum 0]]"
proof -
  have "fst (print_costs [user_turn, assistant_turn] (default_args\<lparr>offset := 1\<rparr>)) = Next"
    "total_cost (snd (print_costs [user_turn, assistant_turn] (default_args\<lparr>offset := 1\<rparr>))) = 0"
    "out (snd (print_costs [user_turn, assistant_turn] (default_args\<lparr>offset := 1\<rparr>)))
       = [Line ''='' [], Line ''COST BREAKDOWN'' [], Line ''='' [],
          Line ''# Time Model In Out Cache Cost'' [], Line ''-'' [],
          Line ''-'' [], Line ''TOTAL'' [JNum 0]]"
    unfolding example_costs_offset by (simp_all add: start_def)
  with example_extract example_overview_totals show ?thesis by blast
qed

subsection \<open>Turns of other roles\<close>









subsection \<open>The backward scan and the cap of the tools view\<close>

lemma scan_range_3: "scan_range 3 = [2, 1, 0]"
  by (simp add: scan_range_def numeral_3_eq_3 numeral_2_eq_2)

lemma scan_call: "scan_message call_args (call_record arguments) = Inr arguments"
  by (simp add: scan_message_def call_record_def is_subagent_call_def)

lemma scan_result: "scan_message call_args subagent_result_record = Inr call_args"
  by (simp add: scan_message_def subagent_result_record_def is_subagent_call_def)

text \<open>
  Claim C7 at an input where the code departs from it. In \<open>two_invocations\<close> the record
  at index 3 is a tool result with subagent details. Scanning backward, the first
  message with a \<^verbatim>\<open>subagent\<close> call is the one at index 2, whose arguments are the chain of
  \<^verbatim>\<open>B\<close>; the scan does not stop there, goes on to index 0 and ends with the arguments of
  that earlier call, the chain of \<^verbatim>\<open>A\<close>.
\<close>

theorem backward_scan_keeps_farthest_call:
  "extract_subagent_details
     (JObj [(''role'', JStr ''toolResult''), (''toolName'', JStr ''subagent''),
            (''content'', JArr [JObj [(''type'', JStr ''text''), (''text'', JStr ''done'')]]),
            (''details'', JObj [(''mode'', JStr ''chain''), (''results'', JArr [])])])
     = Inr (Some (JObj [(''mode'', JStr ''chain''), (''results'', JArr [])]))
   \<and> scan_message (JObj []) (two_invocations ! 2) = Inr (plan_of ''B'')
   \<and> find_call_args two_invocations 3 = Inr (plan_of ''A'')
   \<and> plan_of ''A'' \<noteq> plan_of ''B''"
proof -
  have "find_call_args two_invocations 3 = Inr (plan_of ''A'')"
    by (simp add: find_call_args_def scan_range_3 two_invocations_def scan_call scan_result)
  moreover have "scan_message (JObj []) (two_invocations ! 2) = Inr (plan_of ''B'')"
    by (simp add: two_invocations_def scan_call)
  moreover have "plan_of ''A'' \<noteq> plan_of ''B''" by (simp add: plan_of_def)
  moreover have "extract_subagent_details
     (JObj [(''role'', JStr ''toolResult''), (''toolName'', JStr ''subagent''),
            (''content'', JArr [JObj [(''type'', JStr ''text''), (''text'', JStr ''done'')]]),
            (''details'', JObj [(''mode'', JStr ''chain''), (''results'', JArr [])])])
     = Inr (Some (JObj [(''mode'', JStr ''chain''), (''results'', JArr [])]))"
    by (simp add: extract_subagent_details_def)
  ultimately show ?thesis by blast
qed

text \<open>
  Claim C8 at an input where the code departs from it. With the maximum 0 the limit
  passed to \<open>truncate\<close> is \<^verbatim>\<open>min(0, 500)\<close>, which is 0 and means no limit: a tool result of
  501 characters is printed whole by the tools view.
\<close>

theorem tools_result_unlimited_is_uncapped:
  "max_content unlimited_args = 0
   \<and> texts long_result_turn = [replicate 501 (CHR ''x'')]
   \<and> tools_result unlimited_args long_result_turn
       = Inr [Line ''result'' [JBool False, JStr (replicate 501 (CHR ''x''))]]
   \<and> length (replicate 501 (CHR ''x'')) = 501
   \<and> print_tools example_lib [long_result_turn] unlimited_args
       = (Next, start [Line ''='' [], Line ''TOOL CALLS'' [], Line ''='' [],
                       Line ''result'' [JBool False, JStr (replicate 501 (CHR ''x''))]])"
proof -
  have r: "tools_result unlimited_args long_result_turn
       = Inr [Line ''result'' [JBool False, JStr (replicate 501 (CHR ''x''))]]"
    by (simp add: tools_result_def details_of_def long_result_turn_def new_turn_def
        unlimited_args_def truncate_def)
  have "print_tools example_lib [long_result_turn] unlimited_args
       = (Next, start [Line ''='' [], Line ''TOOL CALLS'' [], Line ''='' [],
                       Line ''result'' [JBool False, JStr (replicate 501 (CHR ''x''))]])"
  proof -
    have role: "role long_result_turn = JStr ''toolResult''"
      by (simp add: long_result_turn_def new_turn_def)
    have w: "offset unlimited_args = 0" "limit unlimited_args = 0"
      by (simp_all add: unlimited_args_def)
    show ?thesis
      by (simp add: print_tools_def tools_body_def role r w windowed_def window_def Let_def
          start_def)
  qed
  moreover have "max_content unlimited_args = 0" by (simp add: unlimited_args_def)
  moreover have "texts long_result_turn = [replicate 501 (CHR ''x'')]"
    by (simp add: long_result_turn_def new_turn_def)
  ultimately show ?thesis using r by simp
qed

end
